theory Spec2Isabelle
  imports Complex_Main "HOL-Library.Sublist" "HOL-Library.Word"
begin


unbundle bit_operations_syntax

section \<open>Python text\<close>

text \<open>
  A Python \<open>str\<close> is a sequence of Unicode code points, so text is a list of code
  points here: slicing, \<open>len\<close> and the per-character tests of the script count
  code points, not bytes. \<open>ustr\<close> turns an ASCII literal into its code points.
\<close>

type_synonym ustring = "nat list"

definition ustr :: "string \<Rightarrow> ustring" where
  "ustr s = map of_char s"

text \<open>
  \<open>str.isalnum\<close> on one character. For ASCII the answer is fixed (digits and
  letters); for the rest of Unicode it is a table of the Python runtime, taken as the
  parameter \<open>U\<close>.
\<close>

definition isalnum :: "(nat \<Rightarrow> bool) \<Rightarrow> nat \<Rightarrow> bool" where
  "isalnum U c =
     (if c < 128 then (48 \<le> c \<and> c \<le> 57) \<or> (65 \<le> c \<and> c \<le> 90) \<or> (97 \<le> c \<and> c \<le> 122)
      else U c)"

text \<open>The characters \<open>str.strip()\<close> removes: those for which \<open>str.isspace\<close> holds.\<close>

definition isspace :: "nat \<Rightarrow> bool" where
  "isspace c =
     ((9 \<le> c \<and> c \<le> 13) \<or> (28 \<le> c \<and> c \<le> 32) \<or> c = 133 \<or> c = 160 \<or> c = 5760
      \<or> (8192 \<le> c \<and> c \<le> 8202) \<or> c = 8232 \<or> c = 8233 \<or> c = 8239 \<or> c = 8287
      \<or> c = 12288)"

definition strip :: "ustring \<Rightarrow> ustring" where
  "strip s = rev (dropWhile isspace (rev (dropWhile isspace s)))"

text \<open>\<open>s.replace(' ', '_')\<close>: both strings have one character.\<close>

definition replace_space :: "ustring \<Rightarrow> ustring" where
  "replace_space s = map (\<lambda>c. if c = 32 then 95 else c) s"

section \<open>The filename fragment made from the prompt\<close>

text \<open>
  \<^verbatim>\<open>
  safe_prompt = "".join(
      c if c.isalnum() or c in (' ', '-', '_') else ''
      for c in prompt[:30]
  ).strip().replace(' ', '_')
  \<close>
\<close>

definition safe_prompt :: "(nat \<Rightarrow> bool) \<Rightarrow> ustring \<Rightarrow> ustring" where
  "safe_prompt U prompt =
     replace_space (strip (concat (map
       (\<lambda>c. if isalnum U c \<or> c = 32 \<or> c = 45 \<or> c = 95 then [c] else [])
       (take 30 prompt))))"

text \<open>
  The same fragment in the words of the specification: keep the alphanumeric characters,
  spaces, hyphens and underscores of the first 30 characters, trim, turn spaces into
  underscores.
\<close>

definition kept :: "(nat \<Rightarrow> bool) \<Rightarrow> nat \<Rightarrow> bool" where
  "kept U c = (isalnum U c \<or> c = 32 \<or> c = 45 \<or> c = 95)"

definition spec_sanitize :: "(nat \<Rightarrow> bool) \<Rightarrow> ustring \<Rightarrow> ustring" where
  "spec_sanitize U prompt = replace_space (strip (filter (kept U) (take 30 prompt)))"

section \<open>Parsed JSON and the Python operations used on it\<close>

text \<open>
  The value \<open>response.json()\<close> returns. A float is its IEEE double (64 bits); the
  keys of a dict are in insertion order and distinct.
\<close>

datatype json =
    JNull
  | JBool bool
  | JInt int
  | JFloat "64 word"
  | JStr ustring
  | JList "json list"
  | JDict "(ustring \<times> json) list"

text \<open>
  The exceptions that leave \<open>generate_image\<close>. The script raises \<open>ValueError\<close>
  itself, and \<open>print\<close> raises one (a \<open>UnicodeEncodeError\<close>) for text the stream
  cannot encode; \<open>TypeError\<close>, \<open>AttributeError\<close> and \<open>KeyError\<close> come from the
  operations on an unexpected JSON value; \<open>OSError\<close> from the file system and from
  the image library when it cannot write.
\<close>

datatype exc = ValueError ustring | TypeError | AttributeError | KeyError | OSError

definition ebind :: "exc + 'a \<Rightarrow> ('a \<Rightarrow> exc + 'b) \<Rightarrow> exc + 'b" where
  "ebind m f = (case m of Inl e \<Rightarrow> Inl e | Inr x \<Rightarrow> f x)"

text \<open>Truth value of an object, as in \<open>if image_data:\<close>.\<close>

fun truthy :: "json \<Rightarrow> bool" where
  "truthy JNull = False"
| "truthy (JBool b) = b"
| "truthy (JInt i) = (i \<noteq> 0)"
| "truthy (JFloat w) = (push_bit 1 w \<noteq> 0)"
| "truthy (JStr s) = (s \<noteq> [])"
| "truthy (JList xs) = (xs \<noteq> [])"
| "truthy (JDict kvs) = (kvs \<noteq> [])"

text \<open>\<open>obj.get(key, default)\<close>: only a dict has the method.\<close>

fun dict_get :: "json \<Rightarrow> ustring \<Rightarrow> json \<Rightarrow> exc + json" where
  "dict_get (JDict kvs) k d = Inr (case map_of kvs k of None \<Rightarrow> d | Some v \<Rightarrow> v)"
| "dict_get _ k d = Inl AttributeError"

text \<open>\<open>for x in obj\<close>: a list gives its elements, a dict its keys, a string its characters.\<close>

fun iter :: "json \<Rightarrow> exc + json list" where
  "iter (JList xs) = Inr xs"
| "iter (JDict kvs) = Inr (map (\<lambda>kv. JStr (fst kv)) kvs)"
| "iter (JStr s) = Inr (map (\<lambda>c. JStr [c]) s)"
| "iter _ = Inl TypeError"

text \<open>\<open>key in obj\<close> for a string \<open>key\<close>: a key of a dict, an element of a list, a substring.\<close>

fun contains :: "ustring \<Rightarrow> json \<Rightarrow> exc + bool" where
  "contains k (JDict kvs) = Inr (map_of kvs k \<noteq> None)"
| "contains k (JList xs) = Inr (List.member xs (JStr k))"
| "contains k (JStr s) = Inr (sublist k s)"
| "contains k _ = Inl TypeError"

text \<open>\<open>obj[key]\<close> for a string \<open>key\<close>.\<close>

fun getitem :: "json \<Rightarrow> ustring \<Rightarrow> exc + json" where
  "getitem (JDict kvs) k = (case map_of kvs k of None \<Rightarrow> Inl KeyError | Some v \<Rightarrow> Inr v)"
| "getitem _ k = Inl TypeError"

section \<open>Extracting the image payload\<close>

text \<open>
  \<^verbatim>\<open>
  image_data = None
  for candidate in result.get('candidates', []):
      for part in candidate.get('content', {}).get('parts', []):
          if 'inlineData' in part:
              image_data = part['inlineData']['data']
              break
      if image_data:
          break
  \<close>
  The inner and the outer loop carry the variable \<open>image_data\<close>. The inner loop stops at the first part
  that has the key, whatever its data; the outer loop stops only on a true value.
\<close>

fun scan_parts :: "json list \<Rightarrow> json \<Rightarrow> exc + json" where
  "scan_parts [] image_data = Inr image_data"
| "scan_parts (part # rest) image_data =
     ebind (contains (ustr ''inlineData'') part) (\<lambda>found.
       if found
       then ebind (getitem part (ustr ''inlineData'')) (\<lambda>inl. getitem inl (ustr ''data''))
       else scan_parts rest image_data)"

fun scan_candidates :: "json list \<Rightarrow> json \<Rightarrow> exc + json" where
  "scan_candidates [] image_data = Inr image_data"
| "scan_candidates (candidate # rest) image_data =
     ebind (dict_get candidate (ustr ''content'') (JDict [])) (\<lambda>content.
     ebind (dict_get content (ustr ''parts'') (JList [])) (\<lambda>parts.
     ebind (iter parts) (\<lambda>ps.
     ebind (scan_parts ps image_data) (\<lambda>image_data'.
       if truthy image_data' then Inr image_data'
       else scan_candidates rest image_data'))))"

definition extract_image_data :: "json \<Rightarrow> exc + json" where
  "extract_image_data result =
     ebind (dict_get result (ustr ''candidates'') (JList [])) (\<lambda>cs.
     ebind (iter cs) (\<lambda>candidates. scan_candidates candidates JNull))"

section \<open>The response shape of the specification\<close>

text \<open>
  \<open>{"candidates":[{"content":{"parts":[{"inlineData":{"data":...}}]}}]}\<close>, where any
  field may be missing. \<open>inline_data\<close> is the inline-data field of a part,
  \<open>parts_of\<close> the parts of a candidate, \<open>candidates_of\<close> the candidates of a response.
\<close>

definition has_inline :: "json \<Rightarrow> bool" where
  "has_inline part =
     (case part of JDict kvs \<Rightarrow> map_of kvs (ustr ''inlineData'') \<noteq> None | _ \<Rightarrow> False)"

definition inline_data :: "json \<Rightarrow> json option" where
  "inline_data part =
     (case part of
        JDict kvs \<Rightarrow>
          (case map_of kvs (ustr ''inlineData'') of
             Some (JDict d) \<Rightarrow> map_of d (ustr ''data'')
           | _ \<Rightarrow> None)
      | _ \<Rightarrow> None)"

definition parts_of :: "json \<Rightarrow> json list" where
  "parts_of candidate =
     (case candidate of
        JDict kvs \<Rightarrow>
          (case map_of kvs (ustr ''content'') of
             Some (JDict c) \<Rightarrow>
               (case map_of c (ustr ''parts'') of Some (JList ps) \<Rightarrow> ps | _ \<Rightarrow> [])
           | _ \<Rightarrow> [])
      | _ \<Rightarrow> [])"

definition candidates_of :: "json \<Rightarrow> json list" where
  "candidates_of result =
     (case result of
        JDict kvs \<Rightarrow>
          (case map_of kvs (ustr ''candidates'') of Some (JList cs) \<Rightarrow> cs | _ \<Rightarrow> [])
      | _ \<Rightarrow> [])"

definition well_part :: "json \<Rightarrow> bool" where
  "well_part part =
     (case part of
        JDict kvs \<Rightarrow>
          (case map_of kvs (ustr ''inlineData'') of
             None \<Rightarrow> True
           | Some (JDict d) \<Rightarrow> map_of d (ustr ''data'') \<noteq> None
           | Some _ \<Rightarrow> False)
      | _ \<Rightarrow> False)"

definition well_candidate :: "json \<Rightarrow> bool" where
  "well_candidate candidate =
     (case candidate of
        JDict kvs \<Rightarrow>
          (case map_of kvs (ustr ''content'') of
             None \<Rightarrow> True
           | Some (JDict c) \<Rightarrow>
               (case map_of c (ustr ''parts'') of
                  None \<Rightarrow> True
                | Some (JList ps) \<Rightarrow> list_all well_part ps
                | Some _ \<Rightarrow> False)
           | Some _ \<Rightarrow> False)
      | _ \<Rightarrow> False)"

definition well_shaped :: "json \<Rightarrow> bool" where
  "well_shaped result =
     (case result of
        JDict kvs \<Rightarrow>
          (case map_of kvs (ustr ''candidates'') of
             None \<Rightarrow> True
           | Some (JList cs) \<Rightarrow> list_all well_candidate cs
           | Some _ \<Rightarrow> False)
      | _ \<Rightarrow> False)"

text \<open>The data of the first part of a candidate that has an inline-data field.\<close>

definition first_inline_of :: "json list \<Rightarrow> json option" where
  "first_inline_of parts =
     (case filter has_inline parts of [] \<Rightarrow> None | p # _ \<Rightarrow> inline_data p)"

definition first_inline :: "json \<Rightarrow> json option" where
  "first_inline candidate = first_inline_of (parts_of candidate)"

text \<open>
  The payload in the words of the specification: that of the first candidate whose parts
  contain an inline-data field.
\<close>

definition spec_payload :: "json \<Rightarrow> json option" where
  "spec_payload result =
     (case filter (\<lambda>c. list_ex has_inline (parts_of c)) (candidates_of result) of
        [] \<Rightarrow> None
      | c # _ \<Rightarrow> first_inline c)"

text \<open>
  The payload the scan computes: the first true value among the candidates' first
  inline-data fields.
\<close>

definition first_true_payload :: "json \<Rightarrow> json option" where
  "first_true_payload result =
     find truthy (List.map_filter first_inline (candidates_of result))"

section \<open>The world outside the script\<close>

text \<open>
  One request as \<open>requests.post(url, headers=headers, json=payload, timeout=60)\<close>
  sends it.
\<close>

record request =
  req_method :: ustring
  req_url :: ustring
  req_headers :: "(ustring \<times> ustring) list"
  req_json :: json
  req_timeout :: nat

text \<open>
  What the script reads of a response: the status code, the text of the \<open>HTTPError\<close>
  that \<open>raise_for_status\<close> raises for it, and the result of \<open>response.json()\<close>
  (\<open>Inl\<close> is the message of the \<open>JSONDecodeError\<close>, which is a \<open>ValueError\<close>).
\<close>

record response =
  status_code :: nat
  error_text :: ustring
  json_result :: "ustring + json"

text \<open>
  The outcome of \<open>requests.post\<close>: a response, a \<open>Timeout\<close>, or another
  \<open>RequestException\<close> with its text.
\<close>

datatype post_outcome = Responded response | TimedOut | Failed ustring

text \<open>
  \<open>Response.raise_for_status\<close> of the requests library raises \<open>HTTPError\<close> for the
  client and server error codes, 400 to 599, and for no other status.
\<close>

definition raise_for_status :: "response \<Rightarrow> bool" where
  "raise_for_status r = (400 \<le> status_code r \<and> status_code r < 600)"

text \<open>A reading of \<open>datetime.now()\<close>.\<close>

record datetime =
  year :: nat
  month :: nat
  day :: nat
  hour :: nat
  minute :: nat
  second :: nat
  microsecond :: nat

text \<open>The ranges the \<open>datetime\<close> class enforces.\<close>

definition valid_datetime :: "datetime \<Rightarrow> bool" where
  "valid_datetime t =
     (1 \<le> year t \<and> year t \<le> 9999 \<and> 1 \<le> month t \<and> month t \<le> 12
      \<and> 1 \<le> day t \<and> day t \<le> 31 \<and> hour t < 24 \<and> minute t < 60 \<and> second t < 60
      \<and> microsecond t < 1000000)"

text \<open>
  The state the script reads and changes: the environment variables, the clock, what was
  printed (one entry for each \<open>print\<close>), the requests sent, and the file system.
\<close>

record world =
  environ :: "ustring \<Rightarrow> ustring option"
  clock :: datetime
  stdout :: "ustring list"
  stderr :: "ustring list"
  requests_sent :: "request list"
  directories :: "ustring set"
  files :: "ustring \<Rightarrow> 8 word list option"

text \<open>The arguments as \<open>parse_args\<close> returns them.\<close>

record args =
  arg_prompt :: ustring
  arg_output :: "ustring option"
  arg_quiet :: bool

text \<open>
  What \<open>parser.parse_args()\<close> does with a command line: it returns the arguments; or it
  writes the usage and an error message to standard error and exits with status 2; or,
  on \<open>-h\<close>, it writes the help text to standard output and exits with status 0.
\<close>

datatype parse_outcome = Parsed args | Usage_error ustring | Help ustring

text \<open>
  The libraries, the network and the operating system, as parameters of the model:
  \<^item> the Unicode table behind \<open>isalnum\<close>, \<open>str\<close> of a parsed response, \<open>str\<close> of
    a runtime exception, the traceback Python writes for an exception nobody catches;
  \<^item> the answer of the network to a request;
  \<^item> \<open>base64.b64decode\<close>, \<open>Image.open\<close> on the decoded bytes (\<open>Inl\<close> is the text
    of the exception raised), the bytes \<open>img.save\<close> writes for a \<open>.png\<close> path, and
    the size of the image;
  \<^item> the exception a \<open>print\<close> to standard output raises for a text, if it raises one
    (a \<open>UnicodeEncodeError\<close>, which is a \<open>ValueError\<close>, for text the stream cannot
    encode);
  \<^item> the exception \<open>os.makedirs("public/images", exist_ok=True)\<close> raises, if it raises
    one, and whether it had made \<open>public\<close> before;
  \<^item> the exception \<open>img.save\<close> raises for an image and a path, if it raises one, and
    what it leaves at the path then: \<open>None\<close> when it did not touch the path (the
    file could not be opened, or was removed again), the bytes of the truncated file
    otherwise;
  \<^item> \<open>argparse\<close> on the command line.
\<close>

record 'img runtime =
  unicode_alnum :: "nat \<Rightarrow> bool"
  py_str :: "json \<Rightarrow> ustring"
  exc_text :: "exc \<Rightarrow> ustring"
  traceback_text :: "exc \<Rightarrow> ustring"
  network :: "request \<Rightarrow> post_outcome"
  b64decode :: "ustring \<Rightarrow> ustring + 8 word list"
  image_open :: "8 word list \<Rightarrow> ustring + 'img"
  png_encode :: "'img \<Rightarrow> 8 word list"
  img_width :: "'img \<Rightarrow> nat"
  img_height :: "'img \<Rightarrow> nat"
  stdout_error :: "ustring \<Rightarrow> exc option"
  makedirs_error :: "(exc \<times> bool) option"
  save_error :: "'img \<Rightarrow> ustring \<Rightarrow> (exc \<times> 8 word list option) option"
  parse_args :: "ustring list \<Rightarrow> parse_outcome"

text \<open>
  \<open>print(msg)\<close>: the text is appended to standard output, or the exception is raised
  and nothing is written. The result is the exception, if any, and the world.
\<close>

definition print :: "'img runtime \<Rightarrow> ustring \<Rightarrow> world \<Rightarrow> exc option \<times> world" where
  "print L msg w =
     (case stdout_error L msg of
        Some e \<Rightarrow> (Some e, w)
      | None \<Rightarrow> (None, w\<lparr>stdout := stdout w @ [msg]\<rparr>))"

text \<open>Several \<open>print\<close> statements in a row: the first that raises ends them.\<close>

fun print_all :: "'img runtime \<Rightarrow> ustring list \<Rightarrow> world \<Rightarrow> exc option \<times> world" where
  "print_all L [] w = (None, w)"
| "print_all L (msg # rest) w =
     (case print L msg w of
        (Some e, w') \<Rightarrow> (Some e, w')
      | (None, w') \<Rightarrow> print_all L rest w')"

text \<open>\<open>if verbose: print(...); print(...)\<close>\<close>

definition progress ::
  "'img runtime \<Rightarrow> bool \<Rightarrow> ustring list \<Rightarrow> world \<Rightarrow> exc option \<times> world" where
  "progress L verbose msgs w = (if verbose then print_all L msgs w else (None, w))"

text \<open>That every message of a list can be printed.\<close>

definition prints_ok :: "'img runtime \<Rightarrow> ustring list \<Rightarrow> bool" where
  "prints_ok L msgs = list_all (\<lambda>msg. stdout_error L msg = None) msgs"

text \<open>
  \<open>print(msg, file=sys.stderr)\<close>. Standard error escapes what it cannot encode
  (its error handler is \<open>backslashreplace\<close>), so this \<open>print\<close> does not raise.
\<close>

definition eprint :: "ustring \<Rightarrow> world \<Rightarrow> world" where
  "eprint msg w = w\<lparr>stderr := stderr w @ [msg]\<rparr>"

section \<open>Formatting\<close>

text \<open>A number in an f-string: its decimal digits.\<close>

fun dec :: "nat \<Rightarrow> ustring" where
  "dec n = (if n < 10 then [48 + n] else dec (n div 10) @ [48 + n mod 10])"

declare dec.simps [simp del]

definition pad2 :: "nat \<Rightarrow> ustring" where
  "pad2 n = [48 + n div 10 mod 10, 48 + n mod 10]"

definition pad4 :: "nat \<Rightarrow> ustring" where
  "pad4 n = [48 + n div 1000 mod 10, 48 + n div 100 mod 10, 48 + n div 10 mod 10, 48 + n mod 10]"

text \<open>
  \<open>strftime("%Y%m%d_%H%M%S")\<close>: zero-padded fields, an underscore after the date.
  (For a year below 1000 the padding of \<open>%Y\<close> is the C library's choice; the clock
  does not read such a year.)
\<close>

definition strftime :: "datetime \<Rightarrow> ustring" where
  "strftime t =
     pad4 (year t) @ pad2 (month t) @ pad2 (day t) @ ustr ''_''
     @ pad2 (hour t) @ pad2 (minute t) @ pad2 (second t)"

text \<open>
  The number a double stands for, from its sign bit, its 11 exponent bits and its 52
  fraction bits (for the finite doubles).
\<close>

definition double_value :: "64 word \<Rightarrow> rat" where
  "double_value w =
     (let e = unat (take_bit 11 (drop_bit 52 w));
          m = unat (take_bit 52 w);
          magnitude = (if e = 0 then of_nat m * 2 powi (- 1074)
                       else of_nat (2 ^ 52 + m) * 2 powi (int e - 1075))
      in if bit w 63 then - magnitude else magnitude)"

section \<open>The handler\<close>

definition missing_key_message :: ustring where
  "missing_key_message =
     ustr ''GOOGLE_API_KEY environment variable not set.\<newline>''
     @ ustr ''Get your API key from: https://aistudio.google.com/apikey\<newline>''
     @ ustr ''Then set it: export GOOGLE_API_KEY='' @ [39] @ ustr ''your-key-here'' @ [39]"

definition endpoint :: ustring where
  "endpoint = ustr
     ''https://generativelanguage.googleapis.com/v1beta/models/gemini-2.5-flash-image:generateContent''"

text \<open>The doubles of the literals \<open>1.0\<close> and \<open>0.95\<close>.\<close>

definition float_1_0 :: "64 word" where
  "float_1_0 = 0x3FF0000000000000"

definition float_0_95 :: "64 word" where
  "float_0_95 = 0x3FEE666666666666"

definition payload :: "ustring \<Rightarrow> json" where
  "payload prompt =
     JDict
       [(ustr ''contents'',
           JList [JDict [(ustr ''parts'', JList [JDict [(ustr ''text'', JStr prompt)]])]]),
        (ustr ''generationConfig'',
           JDict
             [(ustr ''temperature'', JFloat float_1_0),
              (ustr ''topP'', JFloat float_0_95),
              (ustr ''topK'', JInt 40),
              (ustr ''maxOutputTokens'', JInt 8192)])]"

definition build_request :: "ustring \<Rightarrow> ustring \<Rightarrow> request" where
  "build_request api_key prompt =
     \<lparr>req_method = ustr ''POST'',
      req_url = endpoint,
      req_headers =
        [(ustr ''x-goog-api-key'', api_key), (ustr ''Content-Type'', ustr ''application/json'')],
      req_json = payload prompt,
      req_timeout = 60\<rparr>"

text \<open>
  \<^verbatim>\<open>
  try:
      response = requests.post(url, headers=headers, json=payload, timeout=60)
      response.raise_for_status()
  except requests.exceptions.HTTPError as e:
      if response.status_code == 401: raise ValueError("Invalid API key. ...")
      elif response.status_code == 403: raise ValueError("API key doesn't have ...")
      elif response.status_code == 429: raise ValueError("Rate limit exceeded. ...")
      else: raise ValueError(f"API request failed: {e}")
  except requests.exceptions.Timeout:
      raise ValueError("API request timed out. Please try again.")
  except requests.exceptions.RequestException as e:
      raise ValueError(f"Network error: {e}")
  \<close>
\<close>

definition http_error_message :: "response \<Rightarrow> ustring" where
  "http_error_message r =
     (if status_code r = 401 then ustr ''Invalid API key. Please check your GOOGLE_API_KEY.''
      else if status_code r = 403
      then ustr ''API key doesn'' @ [39] @ ustr ''t have required permissions.''
      else if status_code r = 429 then ustr ''Rate limit exceeded. Please wait and try again.''
      else ustr ''API request failed: '' @ error_text r)"

definition call_api :: "'img runtime \<Rightarrow> request \<Rightarrow> exc + response" where
  "call_api L req =
     (case network L req of
        Responded r \<Rightarrow>
          if raise_for_status r then Inl (ValueError (http_error_message r)) else Inr r
      | TimedOut \<Rightarrow> Inl (ValueError (ustr ''API request timed out. Please try again.''))
      | Failed e \<Rightarrow> Inl (ValueError (ustr ''Network error: '' @ e)))"

text \<open>
  \<^verbatim>\<open>
  image_bytes = base64.b64decode(image_data)
  img = Image.open(BytesIO(image_bytes))
  \<close>
  \<open>b64decode\<close> takes a string (or bytes, which JSON does not have); on any other
  object it raises \<open>TypeError\<close>.
\<close>

definition decode_image :: "'img runtime \<Rightarrow> json \<Rightarrow> ustring + 'img" where
  "decode_image L image_data =
     (case image_data of
        JStr s \<Rightarrow>
          (case b64decode L s of Inl e \<Rightarrow> Inl e | Inr image_bytes \<Rightarrow> image_open L image_bytes)
      | _ \<Rightarrow> Inl (exc_text L TypeError))"

text \<open>
  \<^verbatim>\<open>
  if not output_filename:
      timestamp = datetime.now().strftime("%Y%m%d_%H%M%S")
      safe_prompt = ...
      output_filename = f"generated_{safe_prompt}_{timestamp}"
  \<close>
\<close>

definition derive_filename ::
  "(nat \<Rightarrow> bool) \<Rightarrow> ustring \<Rightarrow> ustring option \<Rightarrow> datetime \<Rightarrow> ustring" where
  "derive_filename U prompt output_filename now =
     (case output_filename of
        None \<Rightarrow> ustr ''generated_'' @ safe_prompt U prompt @ ustr ''_'' @ strftime now
      | Some name \<Rightarrow>
          if name = []
          then ustr ''generated_'' @ safe_prompt U prompt @ ustr ''_'' @ strftime now
          else name)"

definition output_path_of :: "ustring \<Rightarrow> ustring" where
  "output_path_of output_filename = ustr ''public/images/'' @ output_filename @ ustr ''.png''"

text \<open>
  \<open>os.makedirs("public/images", exist_ok=True)\<close>: the two directories are there
  afterwards; or the call raises, having made \<open>public\<close> or nothing.
\<close>

definition makedirs :: "'img runtime \<Rightarrow> world \<Rightarrow> exc option \<times> world" where
  "makedirs L w =
     (case makedirs_error L of
        None \<Rightarrow>
          (None,
           w\<lparr>directories :=
               insert (ustr ''public'') (insert (ustr ''public/images'') (directories w))\<rparr>)
      | Some (e, made_public) \<Rightarrow>
          (Some e,
           if made_public then w\<lparr>directories := insert (ustr ''public'') (directories w)\<rparr>
           else w))"

text \<open>
  \<open>img.save(output_path)\<close>: the file at the path is replaced by the PNG encoding of the
  image; or the call raises, and the path is as it was or holds a truncated file.
\<close>

definition save_image ::
  "'img runtime \<Rightarrow> 'img \<Rightarrow> ustring \<Rightarrow> world \<Rightarrow> exc option \<times> world" where
  "save_image L img output_path w =
     (case save_error L img output_path of
        None \<Rightarrow> (None, w\<lparr>files := (files w)(output_path \<mapsto> png_encode L img)\<rparr>)
      | Some (e, left) \<Rightarrow>
          (Some e,
           case left of
             None \<Rightarrow> w
           | Some truncated \<Rightarrow> w\<lparr>files := (files w)(output_path \<mapsto> truncated)\<rparr>))"

definition no_image_message :: "'img runtime \<Rightarrow> json \<Rightarrow> ustring" where
  "no_image_message L result =
     ustr ''No image data received from API. Response: '' @ py_str L result"

text \<open>
  \<^verbatim>\<open>
  if not image_data:
      raise ValueError("No image data received from API. Response: " + str(result))
  \<close>
  after the extraction.
\<close>

definition get_image_data :: "'img runtime \<Rightarrow> json \<Rightarrow> exc + json" where
  "get_image_data L result =
     ebind (extract_image_data result) (\<lambda>image_data.
       if \<not> truthy image_data then Inl (ValueError (no_image_message L result))
       else Inr image_data)"

text \<open>The progress messages of the handler, in the order of lines 48, 49, 108, 109, 136, 137.\<close>

definition prompt_lines :: "ustring \<Rightarrow> ustring list" where
  "prompt_lines prompt =
     [ [0x1F4DD] @ ustr '' Prompt: '' @ prompt,
       [0x1F3A8] @ ustr '' Generating image with Nano Banana...'']"

definition received_lines :: "ustring list" where
  "received_lines =
     [ [0x2705] @ ustr '' Image received from API'', [0x1F4BE] @ ustr '' Saving image...'']"

definition saved_lines :: "'img runtime \<Rightarrow> 'img \<Rightarrow> ustring \<Rightarrow> ustring list" where
  "saved_lines L img output_path =
     [ [0x2728] @ ustr '' Image saved to: '' @ output_path,
       [0x1F4D0] @ ustr '' Dimensions: '' @ dec (img_width L img) @ ustr ''x''
         @ dec (img_height L img)]"

text \<open>
  Lines 118 to 139: the filename, \<open>makedirs\<close>, \<open>save\<close>, the two last messages. None
  of it is inside a \<open>try\<close>: an exception of \<open>makedirs\<close>, \<open>save\<close> or \<open>print\<close>
  leaves the handler as it is.
\<close>

definition save_stage ::
  "'img runtime \<Rightarrow> ustring \<Rightarrow> ustring option \<Rightarrow> bool \<Rightarrow> 'img \<Rightarrow> world
     \<Rightarrow> (exc + ustring) \<times> world" where
  "save_stage L prompt output_filename verbose img w =
     (let name = derive_filename (unicode_alnum L) prompt output_filename (clock w);
          output_path = output_path_of name
      in case makedirs L w of
           (Some e, w1) \<Rightarrow> (Inl e, w1)
         | (None, w1) \<Rightarrow>
             (case save_image L img output_path w1 of
                (Some e, w2) \<Rightarrow> (Inl e, w2)
              | (None, w2) \<Rightarrow>
                  (case progress L verbose (saved_lines L img output_path) w2 of
                     (Some e, w3) \<Rightarrow> (Inl e, w3)
                   | (None, w3) \<Rightarrow> (Inr output_path, w3))))"

text \<open>
  The part of \<open>generate_image\<close> after the request, lines 92 to 139: parse, extract,
  decode, save.
\<close>

definition handle_response ::
  "'img runtime \<Rightarrow> ustring \<Rightarrow> ustring option \<Rightarrow> bool \<Rightarrow> response \<Rightarrow> world
     \<Rightarrow> (exc + ustring) \<times> world" where
  "handle_response L prompt output_filename verbose r w =
     (case json_result r of
        Inl e \<Rightarrow> (Inl (ValueError e), w)
      | Inr result \<Rightarrow>
          (case get_image_data L result of
             Inl e \<Rightarrow> (Inl e, w)
           | Inr image_data \<Rightarrow>
               (case progress L verbose received_lines w of
                  (Some e, w1) \<Rightarrow> (Inl e, w1)
                | (None, w1) \<Rightarrow>
                    (case decode_image L image_data of
                       Inl e \<Rightarrow>
                         (Inl (ValueError (ustr ''Failed to decode image data: '' @ e)), w1)
                     | Inr img \<Rightarrow> save_stage L prompt output_filename verbose img w1))))"

definition generate_image ::
  "'img runtime \<Rightarrow> ustring \<Rightarrow> ustring option \<Rightarrow> bool \<Rightarrow> world
     \<Rightarrow> (exc + ustring) \<times> world" where
  "generate_image L prompt output_filename verbose w =
     (case environ w (ustr ''GOOGLE_API_KEY'') of
        None \<Rightarrow> (Inl (ValueError missing_key_message), w)
      | Some api_key \<Rightarrow>
          if api_key = [] then (Inl (ValueError missing_key_message), w)
          else
            (case progress L verbose (prompt_lines prompt) w of
               (Some e, w1) \<Rightarrow> (Inl e, w1)
             | (None, w1) \<Rightarrow>
                 let req = build_request api_key prompt;
                     w2 = w1\<lparr>requests_sent := requests_sent w1 @ [req]\<rparr>
                 in (case call_api L req of
                       Inl e \<Rightarrow> (Inl e, w2)
                     | Inr r \<Rightarrow> handle_response L prompt output_filename verbose r w2)))"

section \<open>The command line\<close>

text \<open>
  \<^verbatim>\<open>
  except ValueError as e:
      print(f"... Error: {e}", file=sys.stderr)
      sys.exit(1)
  except Exception as e:
      print(f"... Unexpected error: {e}", file=sys.stderr)
      sys.exit(1)
  \<close>
  \<open>str(e)\<close> of a \<open>ValueError\<close> is its message.
\<close>

definition report_error :: "'img runtime \<Rightarrow> exc \<Rightarrow> world \<Rightarrow> nat \<times> world" where
  "report_error L e w =
     (case e of
        ValueError msg \<Rightarrow> (1, eprint ([0x274C] @ ustr '' Error: '' @ msg) w)
      | _ \<Rightarrow> (1, eprint ([0x274C] @ ustr '' Unexpected error: '' @ exc_text L e) w))"

text \<open>
  Lines 165 to 180, for parsed arguments: the exit status of the process and the world it
  leaves. The \<open>print\<close> of the path is inside the \<open>try\<close>.
\<close>

definition run :: "'img runtime \<Rightarrow> args \<Rightarrow> world \<Rightarrow> nat \<times> world" where
  "run L a w =
     (case generate_image L (arg_prompt a) (arg_output a) (\<not> arg_quiet a) w of
        (Inl e, w') \<Rightarrow> report_error L e w'
      | (Inr output_path, w') \<Rightarrow>
          if arg_quiet a
          then (case print L output_path w' of
                  (Some e, w'') \<Rightarrow> report_error L e w''
                | (None, w'') \<Rightarrow> (0, w''))
          else (0, w'))"

text \<open>
  \<open>main\<close> on the command line \<open>sys.argv[1:]\<close>. \<open>parse_args\<close> is outside the
  \<open>try\<close>: on a usage error it writes to standard error and exits with status 2; on
  \<open>-h\<close> it writes the help to standard output and exits with status 0, where
  \<open>argparse\<close> ignores an \<open>OSError\<close> or \<open>AttributeError\<close> of the write and any other
  exception ends the process with a traceback and status 1.
\<close>

definition main :: "'img runtime \<Rightarrow> ustring list \<Rightarrow> world \<Rightarrow> nat \<times> world" where
  "main L argv w =
     (case parse_args L argv of
        Usage_error msg \<Rightarrow> (2, eprint msg w)
      | Help text \<Rightarrow>
          (case print L text w of
             (None, w') \<Rightarrow> (0, w')
           | (Some e, w') \<Rightarrow>
               if e = OSError \<or> e = AttributeError then (0, w')
               else (1, eprint (traceback_text L e) w'))
      | Parsed a \<Rightarrow> run L a w)"

section \<open>Sample inputs\<close>

text \<open>
  Concrete values on which the theorems below are instantiated: responses of the
  documented shape, two PNG files of one pixel, a world, and a runtime that answers as
  the libraries and a Linux system with a UTF-8 terminal do on these values (and reports
  an error on values the examples do not use).
\<close>

definition inline_part :: "json \<Rightarrow> json" where
  "inline_part d = JDict [(ustr ''inlineData'', JDict [(ustr ''data'', d)])]"

definition text_part :: "ustring \<Rightarrow> json" where
  "text_part t = JDict [(ustr ''text'', JStr t)]"

definition candidate :: "json list \<Rightarrow> json" where
  "candidate ps = JDict [(ustr ''content'', JDict [(ustr ''parts'', JList ps)])]"

definition api_result :: "json list \<Rightarrow> json" where
  "api_result cs = JDict [(ustr ''candidates'', JList cs)]"

definition ok_response :: "json \<Rightarrow> response" where
  "ok_response j = \<lparr>status_code = 200, error_text = [], json_result = Inr j\<rparr>"

definition status_response :: "nat \<Rightarrow> json \<Rightarrow> response" where
  "status_response code j =
     \<lparr>status_code = code, error_text = dec code @ ustr '' Error'', json_result = Inr j\<rparr>"

text \<open>The alphanumeric characters of Latin-1 beyond ASCII; nothing above.\<close>

definition latin1_alnum :: "nat \<Rightarrow> bool" where
  "latin1_alnum c =
     (c = 170 \<or> c = 178 \<or> c = 179 \<or> c = 181 \<or> c = 185 \<or> c = 186 \<or> (188 \<le> c \<and> c \<le> 190)
      \<or> (192 \<le> c \<and> c \<le> 214) \<or> (216 \<le> c \<and> c \<le> 246) \<or> (248 \<le> c \<and> c \<le> 255))"

definition sample_str :: "json \<Rightarrow> ustring" where
  "sample_str j = (case j of JDict kvs \<Rightarrow> ustr ''{...}'' | _ \<Rightarrow> ustr ''...'')"

definition sample_exc_text :: "exc \<Rightarrow> ustring" where
  "sample_exc_text e =
     (case e of
        ValueError m \<Rightarrow> m
      | TypeError \<Rightarrow> ustr ''TypeError''
      | AttributeError \<Rightarrow> ustr ''AttributeError''
      | KeyError \<Rightarrow> ustr ''KeyError''
      | OSError \<Rightarrow> ustr ''OSError'')"

definition sample_traceback_text :: "exc \<Rightarrow> ustring" where
  "sample_traceback_text e = ustr ''Traceback (most recent call last): '' @ sample_exc_text e"

text \<open>
  A PNG file of one red pixel and one of one blue pixel (signature, \<open>IHDR\<close>, \<open>IDAT\<close>,
  \<open>IEND\<close>; 69 bytes each), and their base64 encodings.
\<close>

definition red_png :: "8 word list" where
  "red_png =
     [137, 80, 78, 71, 13, 10, 26, 10, 0, 0, 0, 13, 73, 72, 68, 82, 0, 0, 0, 1, 0, 0, 0, 1,
      8, 2, 0, 0, 0, 144, 119, 83, 222, 0, 0, 0, 12, 73, 68, 65, 84, 120, 156, 99, 248, 207,
      192, 0, 0, 3, 1, 1, 0, 201, 254, 146, 239, 0, 0, 0, 0, 73, 69, 78, 68, 174, 66, 96, 130]"

definition blue_png :: "8 word list" where
  "blue_png =
     [137, 80, 78, 71, 13, 10, 26, 10, 0, 0, 0, 13, 73, 72, 68, 82, 0, 0, 0, 1, 0, 0, 0, 1,
      8, 2, 0, 0, 0, 144, 119, 83, 222, 0, 0, 0, 12, 73, 68, 65, 84, 120, 156, 99, 96, 96,
      248, 15, 0, 1, 3, 1, 0, 8, 137, 194, 236, 0, 0, 0, 0, 73, 69, 78, 68, 174, 66, 96, 130]"

definition red_b64 :: ustring where
  "red_b64 = ustr
     ''iVBORw0KGgoAAAANSUhEUgAAAAEAAAABCAIAAACQd1PeAAAADElEQVR4nGP4z8AAAAMBAQDJ/pLvAAAAAElFTkSuQmCC''"

definition blue_b64 :: ustring where
  "blue_b64 = ustr
     ''iVBORw0KGgoAAAANSUhEUgAAAAEAAAABCAIAAACQd1PeAAAADElEQVR4nGNgYPgPAAEDAQAIicLsAAAAAElFTkSuQmCC''"

text \<open>An opened image: width, height and the RGB bytes of its pixels.\<close>

datatype pixel_image = Pixel_image nat nat "8 word list"

definition red_pixel :: pixel_image where
  "red_pixel = Pixel_image 1 1 [255, 0, 0]"

definition blue_pixel :: pixel_image where
  "blue_pixel = Pixel_image 1 1 [0, 0, 255]"

definition sample_b64decode :: "ustring \<Rightarrow> ustring + 8 word list" where
  "sample_b64decode s =
     (if s = red_b64 then Inr red_png
      else if s = blue_b64 then Inr blue_png
      else if s = ustr ''QUJD'' then Inr [65, 66, 67]
      else Inl (ustr ''Incorrect padding''))"

definition sample_image_open :: "8 word list \<Rightarrow> ustring + pixel_image" where
  "sample_image_open bs =
     (if bs = red_png then Inr red_pixel
      else if bs = blue_png then Inr blue_pixel
      else Inl (ustr ''cannot identify image file''))"

definition sample_png_encode :: "pixel_image \<Rightarrow> 8 word list" where
  "sample_png_encode img =
     (if img = red_pixel then red_png else if img = blue_pixel then blue_png else [])"

fun sample_width :: "pixel_image \<Rightarrow> nat" where
  "sample_width (Pixel_image w h px) = w"

fun sample_height :: "pixel_image \<Rightarrow> nat" where
  "sample_height (Pixel_image w h px) = h"

definition answers :: "post_outcome \<Rightarrow> request \<Rightarrow> post_outcome" where
  "answers out req = out"

text \<open>
  Standard output with the encoding UTF-8 and the error handler \<open>strict\<close>: a lone
  surrogate (as the decoding of the command line makes of a byte that is not UTF-8)
  cannot be encoded.
\<close>

definition surrogate :: "nat \<Rightarrow> bool" where
  "surrogate c = (55296 \<le> c \<and> c \<le> 57343)"

definition sample_stdout_error :: "ustring \<Rightarrow> exc option" where
  "sample_stdout_error msg =
     (if list_ex surrogate msg
      then Some (ValueError (ustr ''utf-8 codec cannot encode character: surrogates not allowed''))
      else None)"

text \<open>
  The directory of a path: what is before its last slash. In the sample world
  \<open>public/images\<close> is the one directory there is after \<open>makedirs\<close>; a file in any
  other cannot be opened (\<open>FileNotFoundError\<close>, an \<open>OSError\<close>), and nothing is
  written.
\<close>

definition dirname :: "ustring \<Rightarrow> ustring" where
  "dirname path = rev (drop 1 (dropWhile (\<lambda>c. c \<noteq> 47) (rev path)))"

definition sample_save_error :: "pixel_image \<Rightarrow> ustring \<Rightarrow> (exc \<times> 8 word list option) option" where
  "sample_save_error img path =
     (if dirname path = ustr ''public/images'' then None else Some (OSError, None))"

text \<open>
  \<open>argparse\<close> on the command lines of the examples: none (the prompt is required), a
  prompt alone, with \<open>-q\<close>, with \<open>-o NAME\<close>, with both, and \<open>-h\<close>.
\<close>

definition plain :: "ustring \<Rightarrow> bool" where
  "plain s = (case s of [] \<Rightarrow> True | c # cs \<Rightarrow> c \<noteq> 45)"

definition usage_text :: ustring where
  "usage_text = ustr ''usage: generate-image.py [-h] [-o OUTPUT] [-q] prompt\<newline>''"

definition sample_parse_args :: "ustring list \<Rightarrow> parse_outcome" where
  "sample_parse_args argv =
     (if argv = [] then
        Usage_error (usage_text @ ustr
          ''generate-image.py: error: the following arguments are required: prompt\<newline>'')
      else if argv = [ustr ''-h''] then Help usage_text
      else if length argv = 1 \<and> plain (argv ! 0) then
        Parsed \<lparr>arg_prompt = argv ! 0, arg_output = None, arg_quiet = False\<rparr>
      else if length argv = 2 \<and> plain (argv ! 0) \<and> argv ! 1 = ustr ''-q'' then
        Parsed \<lparr>arg_prompt = argv ! 0, arg_output = None, arg_quiet = True\<rparr>
      else if length argv = 3 \<and> plain (argv ! 0) \<and> argv ! 1 = ustr ''-o'' \<and> plain (argv ! 2) then
        Parsed \<lparr>arg_prompt = argv ! 0, arg_output = Some (argv ! 2), arg_quiet = False\<rparr>
      else if length argv = 4 \<and> plain (argv ! 0) \<and> argv ! 1 = ustr ''-o'' \<and> plain (argv ! 2)
              \<and> argv ! 3 = ustr ''-q'' then
        Parsed \<lparr>arg_prompt = argv ! 0, arg_output = Some (argv ! 2), arg_quiet = True\<rparr>
      else Usage_error (usage_text @ ustr ''generate-image.py: error: unrecognized arguments\<newline>''))"

definition sample_runtime :: "post_outcome \<Rightarrow> pixel_image runtime" where
  "sample_runtime out =
     \<lparr>unicode_alnum = latin1_alnum,
      py_str = sample_str,
      exc_text = sample_exc_text,
      traceback_text = sample_traceback_text,
      network = answers out,
      b64decode = sample_b64decode,
      image_open = sample_image_open,
      png_encode = sample_png_encode,
      img_width = sample_width,
      img_height = sample_height,
      stdout_error = sample_stdout_error,
      makedirs_error = None,
      save_error = sample_save_error,
      parse_args = sample_parse_args\<rparr>"

definition sample_time :: datetime where
  "sample_time =
     \<lparr>year = 2024, month = 1, day = 15, hour = 14, minute = 30, second = 22, microsecond = 0\<rparr>"

definition sample_world :: "ustring option \<Rightarrow> world" where
  "sample_world key =
     \<lparr>environ = (case key of None \<Rightarrow> Map.empty | Some k \<Rightarrow> [ustr ''GOOGLE_API_KEY'' \<mapsto> k]),
      clock = sample_time,
      stdout = [],
      stderr = [],
      requests_sent = [],
      directories = {},
      files = Map.empty\<rparr>"

section \<open>Sanitization\<close>

lemma concat_keep_filter:
  "concat (map (\<lambda>c. if P c then [c] else []) xs) = filter P xs"
  by (induction xs) simp_all

lemma safe_prompt_spec: "safe_prompt U p = spec_sanitize U p"
  by (simp add: safe_prompt_def spec_sanitize_def kept_def [abs_def] concat_keep_filter)

lemma set_strip: "set (strip s) \<subseteq> set s"
proof -
  have "set (strip s) = set (dropWhile isspace (rev (dropWhile isspace s)))"
    by (simp add: strip_def)
  also have "\<dots> \<subseteq> set (rev (dropWhile isspace s))"
    by (rule set_dropWhileD [THEN subsetI])
  also have "\<dots> \<subseteq> set s"
    using set_dropWhileD [of _ isspace s] by auto
  finally show ?thesis .
qed

lemma length_strip: "length (strip s) \<le> length s"
proof -
  have "length (strip s) = length (dropWhile isspace (rev (dropWhile isspace s)))"
    by (simp add: strip_def)
  also have "\<dots> \<le> length (rev (dropWhile isspace s))"
    by (rule length_dropWhile_le)
  also have "\<dots> = length (dropWhile isspace s)"
    by simp
  also have "\<dots> \<le> length s"
    by (rule length_dropWhile_le)
  finally show ?thesis .
qed

lemma length_safe_prompt: "length (safe_prompt U p) \<le> 30"
proof -
  have "length (safe_prompt U p) = length (strip (filter (kept U) (take 30 p)))"
    by (simp add: safe_prompt_spec spec_sanitize_def replace_space_def)
  also have "\<dots> \<le> length (filter (kept U) (take 30 p))"
    by (rule length_strip)
  also have "\<dots> \<le> length (take 30 p)"
    by (rule length_filter_le)
  also have "\<dots> \<le> 30"
    by simp
  finally show ?thesis .
qed

lemma safe_prompt_chars:
  "list_all (\<lambda>c. isalnum U c \<or> c = 45 \<or> c = 95) (safe_prompt U p)"
proof -
  let ?ok = "\<lambda>c. isalnum U c \<or> c = 45 \<or> c = 95"
  have step: "?ok (if c = 32 then 95 else c)" if "kept U c" for c
    using that by (auto simp: kept_def)
  have "set (strip (filter (kept U) (take 30 p))) \<subseteq> {c. kept U c}"
    using set_strip [of "filter (kept U) (take 30 p)"] by auto
  then have "list_all (kept U) (strip (filter (kept U) (take 30 p)))"
    by (auto simp: list_all_iff)
  then have "list_all (\<lambda>c. ?ok (if c = 32 then 95 else c))
      (strip (filter (kept U) (take 30 p)))"
    by (rule list.pred_mono_strong) (rule step)
  then show ?thesis
    by (simp add: safe_prompt_spec spec_sanitize_def replace_space_def list.pred_map comp_def)
qed

text \<open>
  C3 (as the code has it). The fragment is what the specification describes in general:
  the characters of the first 30 that are alphanumeric, spaces, hyphens or underscores,
  trimmed, with every space turned into an underscore; it has at most 30 characters, all
  of them alphanumeric, hyphens or underscores. For the prompt
  \<open>Hello, World! @#$ 2024\<close> the fragment is \<open>Hello_World__2024\<close>: the two
  spaces around the removed \<open>@#$\<close> both stay and both become underscores.
\<close>

theorem safe_prompt_sanitizes:
  "safe_prompt U p = spec_sanitize U p
   \<and> length (safe_prompt U p) \<le> 30
   \<and> list_all (\<lambda>c. isalnum U c \<or> c = 45 \<or> c = 95) (safe_prompt U p)
   \<and> safe_prompt U (ustr ''Hello, World! @#$ 2024'') = ustr ''Hello_World__2024''"
proof -
  have "safe_prompt U (ustr ''Hello, World! @#$ 2024'') = ustr ''Hello_World__2024''"
    by (simp add: safe_prompt_def ustr_def isalnum_def strip_def isspace_def
        replace_space_def)
  then show ?thesis
    using safe_prompt_spec length_safe_prompt safe_prompt_chars by blast
qed

text \<open>
  C3 (as stated) gives \<open>Hello World 2024\<close> as the fragment of that prompt; the code
  does not produce it.
\<close>

theorem safe_prompt_example_counterexample:
  "safe_prompt latin1_alnum (ustr ''Hello, World! @#$ 2024'') \<noteq> ustr ''Hello World 2024''"
  by (simp add: safe_prompt_def ustr_def isalnum_def strip_def isspace_def
      replace_space_def)

section \<open>Extraction on responses of the documented shape\<close>

lemma scan_parts_well:
  "list_all well_part ps \<Longrightarrow>
   scan_parts ps d = Inr (case first_inline_of ps of None \<Rightarrow> d | Some v \<Rightarrow> v)"
proof (induction ps)
  case Nil
  then show ?case by (simp add: first_inline_of_def)
next
  case (Cons p ps)
  from Cons.prems obtain kvs where p: "p = JDict kvs"
    by (cases p) (auto simp: well_part_def)
  show ?case
  proof (cases "map_of kvs (ustr ''inlineData'')")
    case None
    with Cons p show ?thesis
      by (simp add: ebind_def first_inline_of_def has_inline_def)
  next
    case (Some v)
    with Cons.prems p obtain d' x where "v = JDict d'" "map_of d' (ustr ''data'') = Some x"
      by (cases v) (auto simp: well_part_def)
    with Some p show ?thesis
      by (simp add: ebind_def first_inline_of_def has_inline_def inline_data_def)
  qed
qed

lemma candidate_step:
  assumes "well_candidate c"
  shows "scan_candidates (c # cs) d0 =
         (let d = (case first_inline c of None \<Rightarrow> d0 | Some v \<Rightarrow> v)
          in if truthy d then Inr d else scan_candidates cs d)"
proof -
  from assms obtain kvs where c: "c = JDict kvs"
    by (cases c) (auto simp: well_candidate_def)
  have parts: "dict_get c (ustr ''content'') (JDict []) = Inr content \<Longrightarrow>
     dict_get content (ustr ''parts'') (JList []) = Inr ps \<Longrightarrow>
     iter ps = Inr (parts_of c) \<and> list_all well_part (parts_of c)" for content ps
    using assms unfolding c
    by (auto simp: well_candidate_def parts_of_def split: option.splits json.splits)
  obtain content ps where
    "dict_get c (ustr ''content'') (JDict []) = Inr content"
    "dict_get content (ustr ''parts'') (JList []) = Inr ps"
    using assms unfolding c
    by (auto simp: well_candidate_def split: option.splits json.splits)
  with parts [OF this] show ?thesis
    by (simp add: ebind_def scan_parts_well first_inline_def Let_def)
qed



lemma scan_candidates_well:
  "list_all well_candidate cs \<Longrightarrow> \<not> truthy d0 \<Longrightarrow>
   (case find truthy (List.map_filter first_inline cs) of
      Some d \<Rightarrow> scan_candidates cs d0 = Inr d
    | None \<Rightarrow> (\<exists>d. scan_candidates cs d0 = Inr d \<and> \<not> truthy d))"
proof (induction cs arbitrary: d0)
  case Nil
  then show ?case by simp
next
  case (Cons c cs)
  then have wc: "well_candidate c" and wcs: "list_all well_candidate cs"
    by simp_all
  show ?case
  proof (cases "first_inline c")
    case None
    with Cons.IH [OF wcs Cons.prems(2)] show ?thesis
      by (simp del: scan_candidates.simps add: candidate_step [OF wc] Cons.prems(2)
          split: option.splits)
  next
    case (Some v)
    show ?thesis
    proof (cases "truthy v")
      case True
      with Some show ?thesis
        by (simp del: scan_candidates.simps add: candidate_step [OF wc] split: option.splits)
    next
      case False
      with Some Cons.IH [OF wcs False] show ?thesis
        by (simp del: scan_candidates.simps add: candidate_step [OF wc] split: option.splits)
    qed
  qed
qed

lemma find_truthy: "find truthy xs = Some d \<Longrightarrow> truthy d"
  by (induction xs) (auto split: if_splits)

lemma extract_well_shaped:
  assumes "well_shaped r"
  shows "extract_image_data r = scan_candidates (candidates_of r) JNull"
    and "list_all well_candidate (candidates_of r)"
proof -
  from assms obtain kvs where r: "r = JDict kvs"
    by (cases r) (auto simp: well_shaped_def)
  show "extract_image_data r = scan_candidates (candidates_of r) JNull"
    using assms unfolding r
    by (auto simp: well_shaped_def extract_image_data_def candidates_of_def ebind_def
        split: option.splits json.splits)
  show "list_all well_candidate (candidates_of r)"
    using assms unfolding r
    by (auto simp: well_shaped_def candidates_of_def split: option.splits json.splits)
qed

lemma get_image_data_well_shaped:
  assumes "well_shaped r"
  shows "get_image_data L r =
         (case first_true_payload r of
            Some d \<Rightarrow> Inr d
          | None \<Rightarrow> Inl (ValueError (no_image_message L r)))"
proof -
  note ex = extract_well_shaped [OF assms]
  have sc: "case find truthy (List.map_filter first_inline (candidates_of r)) of
      Some d \<Rightarrow> scan_candidates (candidates_of r) JNull = Inr d
    | None \<Rightarrow> (\<exists>d. scan_candidates (candidates_of r) JNull = Inr d \<and> \<not> truthy d)"
    by (rule scan_candidates_well [OF ex(2)]) simp
  show ?thesis
  proof (cases "first_true_payload r")
    case None
    with sc obtain d where "scan_candidates (candidates_of r) JNull = Inr d" "\<not> truthy d"
      by (auto simp: first_true_payload_def)
    with None show ?thesis
      by (simp add: get_image_data_def ex(1) ebind_def)
  next
    case (Some d)
    then have "truthy d"
      by (auto simp: first_true_payload_def dest: find_truthy)
    with Some sc show ?thesis
      by (simp add: get_image_data_def ex(1) ebind_def first_true_payload_def)
  qed
qed

lemma spec_payload_true:
  "(case filter (\<lambda>c. list_ex has_inline (parts_of c)) cs of
      [] \<Rightarrow> None
    | c # _ \<Rightarrow> first_inline c) = Some d \<Longrightarrow>
   truthy d \<Longrightarrow> find truthy (List.map_filter first_inline cs) = Some d"
proof (induction cs)
  case Nil
  then show ?case by simp
next
  case (Cons c cs)
  show ?case
  proof (cases "list_ex has_inline (parts_of c)")
    case True
    with Cons.prems show ?thesis by simp
  next
    case False
    then have "filter has_inline (parts_of c) = []"
      by (auto simp: list_ex_iff filter_empty_conv)
    then have "first_inline c = None"
      by (simp add: first_inline_def first_inline_of_def)
    with False Cons show ?thesis by simp
  qed
qed

lemma first_inline_mem:
  assumes "first_inline c = Some d"
  shows "\<exists>p \<in> set (parts_of c). has_inline p \<and> inline_data p = Some d"
proof -
  from assms obtain p ps where f: "filter has_inline (parts_of c) = p # ps"
    and d: "inline_data p = Some d"
    by (auto simp: first_inline_def first_inline_of_def split: list.splits)
  have "p \<in> set (filter has_inline (parts_of c))"
    unfolding f by simp
  with d show ?thesis by auto
qed

lemma no_true_payload:
  assumes "\<forall>c \<in> set cs. \<forall>p \<in> set (parts_of c). \<forall>d. inline_data p = Some d \<longrightarrow> \<not> truthy d"
  shows "find truthy (List.map_filter first_inline cs) = None"
proof -
  have "\<not> truthy d" if "d \<in> set (List.map_filter first_inline cs)" for d
  proof -
    from that obtain c where "c \<in> set cs" "first_inline c = Some d"
      by (auto simp: List.map_filter_def)
    with first_inline_mem assms show ?thesis by blast
  qed
  then show ?thesis
    by (auto simp: find_None_iff)
qed

lemma inline_data_has_inline: "inline_data p = Some d \<Longrightarrow> has_inline p"
  by (auto simp: inline_data_def has_inline_def split: json.splits option.splits)

text \<open>
  C1 (as the code has it). On a response of the documented shape, the payload is the
  first true (non-empty) value among the candidates' first inline-data fields, taken in
  order. So when the first candidate whose parts contain an inline-data field has a
  non-empty value there, that value is the payload; and when no candidate gives a true
  value, in particular when no part of any candidate has an inline-data field, the
  handler raises the \<open>No image data\<close> error, whose message ends with \<open>str\<close> of the
  parsed response.
\<close>

theorem payload_first_true_inline_data:
  assumes "well_shaped r"
  shows "get_image_data L r =
           (case first_true_payload r of
              Some d \<Rightarrow> Inr d
            | None \<Rightarrow>
                Inl (ValueError
                  (ustr ''No image data received from API. Response: '' @ py_str L r)))
         \<and> (\<forall>d. spec_payload r = Some d \<and> truthy d \<longrightarrow> get_image_data L r = Inr d)
         \<and> ((\<forall>c \<in> set (candidates_of r). \<forall>p \<in> set (parts_of c). \<not> has_inline p) \<longrightarrow>
              get_image_data L r =
                Inl (ValueError
                  (ustr ''No image data received from API. Response: '' @ py_str L r)))"
proof (intro conjI allI impI)
  show main: "get_image_data L r =
      (case first_true_payload r of
         Some d \<Rightarrow> Inr d
       | None \<Rightarrow>
           Inl (ValueError (ustr ''No image data received from API. Response: '' @ py_str L r)))"
    using get_image_data_well_shaped [OF assms, of L] unfolding no_image_message_def .
  show "get_image_data L r = Inr d" if "spec_payload r = Some d \<and> truthy d" for d
  proof -
    from that have "first_true_payload r = Some d"
      unfolding spec_payload_def first_true_payload_def by (auto intro: spec_payload_true)
    with main show ?thesis by simp
  qed
  show "get_image_data L r =
      Inl (ValueError (ustr ''No image data received from API. Response: '' @ py_str L r))"
    if none: "\<forall>c \<in> set (candidates_of r). \<forall>p \<in> set (parts_of c). \<not> has_inline p"
  proof -
    have "find truthy (List.map_filter first_inline (candidates_of r)) = None"
      by (rule no_true_payload) (use none inline_data_has_inline in blast)
    with main show ?thesis by (simp add: first_true_payload_def)
  qed
qed

theorem payload_first_true_inline_data_witness:
  "well_shaped (api_result [candidate [text_part (ustr ''hi''), inline_part (JStr (ustr ''QUJD''))]])
   \<and> get_image_data (sample_runtime TimedOut)
       (api_result [candidate [text_part (ustr ''hi''), inline_part (JStr (ustr ''QUJD''))]])
     = Inr (JStr (ustr ''QUJD''))
   \<and> well_shaped (api_result [candidate [text_part (ustr ''hi'')]])
   \<and> get_image_data (sample_runtime TimedOut) (api_result [candidate [text_part (ustr ''hi'')]])
     = Inl (ValueError (ustr ''No image data received from API. Response: {...}''))"
proof -
  let ?r1 = "api_result [candidate [text_part (ustr ''hi''), inline_part (JStr (ustr ''QUJD''))]]"
  let ?r2 = "api_result [candidate [text_part (ustr ''hi'')]]"
  have w1: "well_shaped ?r1" and w2: "well_shaped ?r2"
    by (simp_all add: well_shaped_def well_candidate_def well_part_def api_result_def
        candidate_def text_part_def inline_part_def ustr_def)
  have p1: "first_true_payload ?r1 = Some (JStr (ustr ''QUJD''))"
    by (simp add: first_true_payload_def candidates_of_def first_inline_def first_inline_of_def
        parts_of_def has_inline_def inline_data_def api_result_def candidate_def text_part_def
        inline_part_def ustr_def)
  have p2: "first_true_payload ?r2 = None"
    by (simp add: first_true_payload_def candidates_of_def first_inline_def first_inline_of_def
        parts_of_def has_inline_def inline_data_def api_result_def candidate_def text_part_def
        ustr_def)
  have s: "py_str (sample_runtime TimedOut) ?r2 = ustr ''{...}''"
    by (simp add: sample_runtime_def sample_str_def api_result_def)
  from payload_first_true_inline_data [OF w1, of "sample_runtime TimedOut"] p1
  have "get_image_data (sample_runtime TimedOut) ?r1 = Inr (JStr (ustr ''QUJD''))"
    by simp
  moreover
  from payload_first_true_inline_data [OF w2, of "sample_runtime TimedOut"] p2 s
  have "get_image_data (sample_runtime TimedOut) ?r2
        = Inl (ValueError (ustr ''No image data received from API. Response: {...}''))"
    by (simp add: ustr_def)
  ultimately show ?thesis using w1 w2 by simp
qed

text \<open>
  C1 (as stated) takes the string of the first candidate whose parts contain an
  inline-data field. Here that candidate carries the empty string, and the handler takes
  the string of the second candidate.
\<close>

theorem payload_first_candidate_counterexample:
  "spec_payload (api_result [candidate [inline_part (JStr [])],
                             candidate [inline_part (JStr (ustr ''QUJD''))]])
     = Some (JStr [])
   \<and> get_image_data (sample_runtime TimedOut)
        (api_result [candidate [inline_part (JStr [])],
                     candidate [inline_part (JStr (ustr ''QUJD''))]])
     = Inr (JStr (ustr ''QUJD''))"
  by (simp add: spec_payload_def candidates_of_def first_inline_def first_inline_of_def
      parts_of_def has_inline_def inline_data_def api_result_def candidate_def
      inline_part_def ustr_def get_image_data_def extract_image_data_def ebind_def)

section \<open>What a run of the handler leaves behind\<close>

lemma eprint_frame [simp]:
  "stdout (eprint m w) = stdout w"
  "stderr (eprint m w) = stderr w @ [m]"
  "requests_sent (eprint m w) = requests_sent w"
  "files (eprint m w) = files w"
  "directories (eprint m w) = directories w"
  "environ (eprint m w) = environ w"
  "clock (eprint m w) = clock w"
  by (simp_all add: eprint_def)

lemma print_result:
  obtains (printed) "stdout_error L msg = None"
      and "print L msg w = (None, w\<lparr>stdout := stdout w @ [msg]\<rparr>)"
  | (raised) e where "stdout_error L msg = Some e" and "print L msg w = (Some e, w)"
  by (cases "stdout_error L msg") (auto simp: print_def)

lemma print_all_None:
  "print_all L msgs w = (None, w') \<longleftrightarrow>
     prints_ok L msgs \<and> w' = w\<lparr>stdout := stdout w @ msgs\<rparr>"
proof (induction msgs arbitrary: w)
  case Nil
  then show ?case by (auto simp: prints_ok_def)
next
  case (Cons msg rest)
  show ?case
  proof (cases rule: print_result [of L msg w])
    case printed
    with Cons.IH [of "w\<lparr>stdout := stdout w @ [msg]\<rparr>"] show ?thesis
      by (simp add: prints_ok_def)
  next
    case (raised e)
    then show ?thesis by (simp add: prints_ok_def)
  qed
qed

lemma print_all_Some:
  "print_all L msgs w = (Some e, w') \<Longrightarrow>
     \<not> prints_ok L msgs \<and> files w' = files w \<and> directories w' = directories w
     \<and> stderr w' = stderr w \<and> environ w' = environ w
     \<and> requests_sent w' = requests_sent w \<and> clock w' = clock w"
proof (induction msgs arbitrary: w)
  case Nil
  then show ?case by simp
next
  case (Cons msg rest)
  show ?case
  proof (cases rule: print_result [of L msg w])
    case printed
    with Cons.prems have "print_all L rest (w\<lparr>stdout := stdout w @ [msg]\<rparr>) = (Some e, w')"
      by simp
    from Cons.IH [OF this] printed show ?thesis
      by (simp add: prints_ok_def)
  next
    case (raised e')
    with Cons.prems show ?thesis by (auto simp: prints_ok_def)
  qed
qed

text \<open>The two ways a group of progress messages ends.\<close>

lemma progress_cases:
  obtains (printed) "verbose \<longrightarrow> prints_ok L msgs"
      and "progress L verbose msgs w = (None, w\<lparr>stdout := stdout w @ (if verbose then msgs else [])\<rparr>)"
  | (raised) e w' where verbose and "\<not> prints_ok L msgs"
      and "progress L verbose msgs w = (Some e, w')"
      and "files w' = files w" and "directories w' = directories w"
      and "stderr w' = stderr w" and "environ w' = environ w"
      and "requests_sent w' = requests_sent w" and "clock w' = clock w"
proof (cases verbose)
  case False
  then have "progress L verbose msgs w = (None, w\<lparr>stdout := stdout w @ (if verbose then msgs else [])\<rparr>)"
    by (simp add: progress_def)
  with False show ?thesis by (auto intro: printed)
next
  case True
  obtain res w' where p: "print_all L msgs w = (res, w')"
    by (cases "print_all L msgs w")
  show ?thesis
  proof (cases res)
    case None
    with p True show ?thesis
      by (intro printed) (simp_all add: progress_def print_all_None)
  next
    case (Some e)
    with p print_all_Some [of L msgs w e w'] True show ?thesis
      by (intro raised [of e w']) (simp_all add: progress_def)
  qed
qed

lemma progress_ok:
  assumes "verbose \<longrightarrow> prints_ok L msgs"
  shows "progress L verbose msgs w = (None, w\<lparr>stdout := stdout w @ (if verbose then msgs else [])\<rparr>)"
  using assms by (cases rule: progress_cases [of verbose L msgs w]) auto

lemma makedirs_frame:
  "files (snd (makedirs L w)) = files w" "stdout (snd (makedirs L w)) = stdout w"
  "stderr (snd (makedirs L w)) = stderr w" "environ (snd (makedirs L w)) = environ w"
  "requests_sent (snd (makedirs L w)) = requests_sent w" "clock (snd (makedirs L w)) = clock w"
  by (simp_all add: makedirs_def split: option.splits prod.splits)

lemma save_image_frame:
  "directories (snd (save_image L img path w)) = directories w"
  "stdout (snd (save_image L img path w)) = stdout w"
  "stderr (snd (save_image L img path w)) = stderr w"
  "environ (snd (save_image L img path w)) = environ w"
  "requests_sent (snd (save_image L img path w)) = requests_sent w"
  "clock (snd (save_image L img path w)) = clock w"
  by (simp_all add: save_image_def split: option.splits prod.splits)

text \<open>The save stage: what no run of it changes, and what a run that returns has done.\<close>

lemma save_stage_frame:
  "stderr (snd (save_stage L p out v img w)) = stderr w
   \<and> environ (snd (save_stage L p out v img w)) = environ w
   \<and> requests_sent (snd (save_stage L p out v img w)) = requests_sent w"
proof -
  let ?path = "output_path_of (derive_filename (unicode_alnum L) p out (clock w))"
  obtain r1 w1 where m: "makedirs L w = (r1, w1)" by (cases "makedirs L w")
  obtain r2 w2 where s: "save_image L img ?path w1 = (r2, w2)"
    by (cases "save_image L img ?path w1")
  from m makedirs_frame [of L w] have f1: "stderr w1 = stderr w" "environ w1 = environ w"
    "requests_sent w1 = requests_sent w" by simp_all
  from s save_image_frame [of L img ?path w1] have f2: "stderr w2 = stderr w1"
    "environ w2 = environ w1" "requests_sent w2 = requests_sent w1" by simp_all
  show ?thesis
  proof (cases rule: progress_cases [of v L "saved_lines L img ?path" w2])
    case printed
    with m s f1 f2 show ?thesis
      by (cases r1; cases r2) (simp_all add: save_stage_def Let_def)
  next
    case (raised e w')
    with m s f1 f2 show ?thesis
      by (cases r1; cases r2) (simp_all add: save_stage_def Let_def)
  qed
qed

lemma save_stage_Inr:
  assumes "save_stage L p out v img w = (Inr path, w')"
  shows "path = output_path_of (derive_filename (unicode_alnum L) p out (clock w))
         \<and> makedirs_error L = None \<and> save_error L img path = None
         \<and> (v \<longrightarrow> prints_ok L (saved_lines L img path))
         \<and> files w' = (files w)(path \<mapsto> png_encode L img)
         \<and> stdout w' = stdout w @ (if v then saved_lines L img path else [])"
proof -
  let ?path = "output_path_of (derive_filename (unicode_alnum L) p out (clock w))"
  obtain r1 w1 where m: "makedirs L w = (r1, w1)" by (cases "makedirs L w")
  obtain r2 w2 where s: "save_image L img ?path w1 = (r2, w2)"
    by (cases "save_image L img ?path w1")
  from assms m have r1: "r1 = None"
    by (cases r1) (simp_all add: save_stage_def Let_def)
  from assms m s r1 have r2: "r2 = None"
    by (cases r2) (simp_all add: save_stage_def Let_def)
  from m r1 have me: "makedirs_error L = None" and w1: "files w1 = files w" "stdout w1 = stdout w"
    by (auto simp: makedirs_def split: option.splits prod.splits)
  from s r2 have se: "save_error L img ?path = None"
    and w2: "files w2 = (files w1)(?path \<mapsto> png_encode L img)" "stdout w2 = stdout w1"
    by (auto simp: save_image_def split: option.splits prod.splits)
  show ?thesis
  proof (cases rule: progress_cases [of v L "saved_lines L img ?path" w2])
    case printed
    with assms m s r1 r2 me se w1 w2 show ?thesis
      by (auto simp: save_stage_def Let_def)
  next
    case (raised e w'')
    with assms m s r1 r2 show ?thesis
      by (simp add: save_stage_def Let_def)
  qed
qed

lemma save_stage_ok:
  assumes "makedirs_error L = None"
    and "save_error L img (output_path_of (derive_filename (unicode_alnum L) p out (clock w))) = None"
    and "v \<longrightarrow> prints_ok L (saved_lines L img
           (output_path_of (derive_filename (unicode_alnum L) p out (clock w))))"
  shows "fst (save_stage L p out v img w)
           = Inr (output_path_of (derive_filename (unicode_alnum L) p out (clock w)))"
    and "files (snd (save_stage L p out v img w))
           = (files w)(output_path_of (derive_filename (unicode_alnum L) p out (clock w))
                \<mapsto> png_encode L img)"
    and "stdout (snd (save_stage L p out v img w))
           = stdout w @ (if v then saved_lines L img
               (output_path_of (derive_filename (unicode_alnum L) p out (clock w))) else [])"
  using assms by (simp_all add: save_stage_def Let_def makedirs_def save_image_def progress_ok)

text \<open>The part after the request.\<close>

lemma handle_response_decoded:
  assumes "json_result r = Inr result" and "get_image_data L result = Inr d"
    and "decode_image L d = Inr img" and "v \<longrightarrow> prints_ok L received_lines"
  shows "handle_response L p out v r w =
           save_stage L p out v img (w\<lparr>stdout := stdout w @ (if v then received_lines else [])\<rparr>)"
  using assms by (simp add: handle_response_def progress_ok)

lemma handle_response_reaches_save:
  obtains (before) e w' where "handle_response L p out v r w = (Inl e, w')"
      and "files w' = files w" and "directories w' = directories w"
      and "stderr w' = stderr w" and "environ w' = environ w"
      and "requests_sent w' = requests_sent w"
  | (saving) result d img where "json_result r = Inr result"
      and "get_image_data L result = Inr d" and "decode_image L d = Inr img"
      and "v \<longrightarrow> prints_ok L received_lines"
      and "handle_response L p out v r w =
             save_stage L p out v img (w\<lparr>stdout := stdout w @ (if v then received_lines else [])\<rparr>)"
proof (cases "json_result r")
  case (Inl e)
  then show ?thesis
    by (intro before [of "ValueError e" w]) (simp_all add: handle_response_def)
next
  case (Inr result)
  show ?thesis
  proof (cases "get_image_data L result")
    case (Inl e)
    with Inr show ?thesis
      by (intro before [of e w]) (simp_all add: handle_response_def)
  next
    case d: (Inr d)
    show ?thesis
    proof (cases rule: progress_cases [of v L received_lines w])
      case printed
      show ?thesis
      proof (cases "decode_image L d")
        case (Inl e)
        with Inr d printed show ?thesis
          by (intro before [of "ValueError (ustr ''Failed to decode image data: '' @ e)"
                "w\<lparr>stdout := stdout w @ (if v then received_lines else [])\<rparr>"])
            (simp_all add: handle_response_def)
      next
        case img: (Inr img)
        from handle_response_decoded [OF Inr d img printed(1)] Inr d img printed(1)
        show ?thesis by (intro saving)
      qed
    next
      case (raised e w')
      with Inr d show ?thesis
        by (intro before [of e w']) (simp_all add: handle_response_def)
    qed
  qed
qed

lemma handle_response_frame:
  "stderr (snd (handle_response L p out v r w)) = stderr w
   \<and> environ (snd (handle_response L p out v r w)) = environ w
   \<and> requests_sent (snd (handle_response L p out v r w)) = requests_sent w"
proof (cases rule: handle_response_reaches_save [of L p out v r w])
  case (before e w')
  then show ?thesis by simp
next
  case (saving result d img)
  with save_stage_frame
    [of L p out v img "w\<lparr>stdout := stdout w @ (if v then received_lines else [])\<rparr>"]
  show ?thesis by simp
qed

lemma handle_response_changed:
  assumes "files (snd (handle_response L p out v r w)) \<noteq> files w
           \<or> directories (snd (handle_response L p out v r w)) \<noteq> directories w"
  shows "\<exists>result d img. json_result r = Inr result \<and> get_image_data L result = Inr d
           \<and> decode_image L d = Inr img"
proof (cases rule: handle_response_reaches_save [of L p out v r w])
  case (before e w')
  with assms show ?thesis by simp
next
  case (saving result d img)
  then show ?thesis by blast
qed

lemma handle_response_Inr:
  assumes "handle_response L p out v r w = (Inr path, w')"
  shows "\<exists>result d img.
           json_result r = Inr result \<and> get_image_data L result = Inr d
           \<and> decode_image L d = Inr img
           \<and> path = output_path_of (derive_filename (unicode_alnum L) p out (clock w))
           \<and> makedirs_error L = None \<and> save_error L img path = None
           \<and> (v \<longrightarrow> prints_ok L (received_lines @ saved_lines L img path))
           \<and> files w' = (files w)(path \<mapsto> png_encode L img)
           \<and> stdout w' = stdout w @ (if v then received_lines @ saved_lines L img path else [])"
proof (cases rule: handle_response_reaches_save [of L p out v r w])
  case (before e w'')
  with assms show ?thesis by simp
next
  case (saving result d img)
  with assms have "save_stage L p out v img
      (w\<lparr>stdout := stdout w @ (if v then received_lines else [])\<rparr>) = (Inr path, w')"
    by simp
  from save_stage_Inr [OF this] saving(1-4) show ?thesis
    by (intro exI [of _ result] exI [of _ d] exI [of _ img]) (auto simp: prints_ok_def)
qed

text \<open>The whole handler.\<close>

lemma call_api_Inr:
  "call_api L req = Inr r \<longleftrightarrow> network L req = Responded r \<and> \<not> raise_for_status r"
  by (auto simp: call_api_def split: post_outcome.splits)

lemma generate_image_without_key:
  assumes "environ w (ustr ''GOOGLE_API_KEY'') = None \<or> environ w (ustr ''GOOGLE_API_KEY'') = Some []"
  shows "generate_image L p out v w = (Inl (ValueError missing_key_message), w)"
  using assms by (auto simp: generate_image_def)

lemma generate_image_with_key:
  assumes "environ w (ustr ''GOOGLE_API_KEY'') = Some k" and "k \<noteq> []"
    and "v \<longrightarrow> prints_ok L (prompt_lines p)"
  obtains w2 where "files w2 = files w" and "directories w2 = directories w"
    and "stderr w2 = stderr w" and "environ w2 = environ w" and "clock w2 = clock w"
    and "requests_sent w2 = requests_sent w @ [build_request k p]"
    and "stdout w2 = stdout w @ (if v then prompt_lines p else [])"
    and "generate_image L p out v w =
           (case call_api L (build_request k p) of
              Inl e \<Rightarrow> (Inl e, w2)
            | Inr r \<Rightarrow> handle_response L p out v r w2)"
proof -
  define w2 where "w2 = w\<lparr>stdout := stdout w @ (if v then prompt_lines p else []),
      requests_sent := requests_sent w @ [build_request k p]\<rparr>"
  have "generate_image L p out v w =
      (case call_api L (build_request k p) of
         Inl e \<Rightarrow> (Inl e, w2)
       | Inr r \<Rightarrow> handle_response L p out v r w2)"
    using assms(1,2) progress_ok [OF assms(3), of w]
    by (simp add: generate_image_def Let_def w2_def split: sum.splits)
  moreover have "files w2 = files w" "directories w2 = directories w" "stderr w2 = stderr w"
    "environ w2 = environ w" "clock w2 = clock w"
    "requests_sent w2 = requests_sent w @ [build_request k p]"
    "stdout w2 = stdout w @ (if v then prompt_lines p else [])"
    by (simp_all add: w2_def)
  ultimately show thesis by (rule that [rotated -1])
qed

lemma generate_image_unprintable:
  assumes "environ w (ustr ''GOOGLE_API_KEY'') = Some k" and "k \<noteq> []"
    and "v" and "\<not> prints_ok L (prompt_lines p)"
  shows "\<exists>e w'. generate_image L p out v w = (Inl e, w')
           \<and> requests_sent w' = requests_sent w \<and> files w' = files w
           \<and> directories w' = directories w \<and> stderr w' = stderr w \<and> environ w' = environ w"
proof (cases rule: progress_cases [of v L "prompt_lines p" w])
  case printed
  with assms show ?thesis by simp
next
  case (raised e w')
  with assms(1,2) show ?thesis
    by (intro exI [of _ e] exI [of _ w']) (simp add: generate_image_def)
qed

text \<open>
  A run of the handler either ends before the request (no credential, or the first
  messages cannot be printed), or sends the request and goes on with the answer.
\<close>

lemma generate_image_cases:
  obtains (before) e w' where "generate_image L p out v w = (Inl e, w')"
      and "requests_sent w' = requests_sent w" and "files w' = files w"
      and "directories w' = directories w" and "stderr w' = stderr w"
      and "environ w' = environ w"
  | (sent) k w2 where "environ w (ustr ''GOOGLE_API_KEY'') = Some k" and "k \<noteq> []"
      and "v \<longrightarrow> prints_ok L (prompt_lines p)"
      and "files w2 = files w" and "directories w2 = directories w"
      and "stderr w2 = stderr w" and "environ w2 = environ w" and "clock w2 = clock w"
      and "requests_sent w2 = requests_sent w @ [build_request k p]"
      and "stdout w2 = stdout w @ (if v then prompt_lines p else [])"
      and "generate_image L p out v w =
           (case call_api L (build_request k p) of
              Inl e \<Rightarrow> (Inl e, w2)
            | Inr r \<Rightarrow> handle_response L p out v r w2)"
proof (cases "environ w (ustr ''GOOGLE_API_KEY'') = None
    \<or> environ w (ustr ''GOOGLE_API_KEY'') = Some []")
  case True
  from generate_image_without_key [OF this, of L p out v] show ?thesis
    by (intro before [of "ValueError missing_key_message" w]) simp_all
next
  case False
  then obtain k where k: "environ w (ustr ''GOOGLE_API_KEY'') = Some k" "k \<noteq> []"
    by auto
  show ?thesis
  proof (cases "v \<longrightarrow> prints_ok L (prompt_lines p)")
    case True
    from generate_image_with_key [OF k True, of out] obtain w2 where
      "files w2 = files w" "directories w2 = directories w"
      "stderr w2 = stderr w" "environ w2 = environ w" "clock w2 = clock w"
      "requests_sent w2 = requests_sent w @ [build_request k p]"
      "stdout w2 = stdout w @ (if v then prompt_lines p else [])"
      "generate_image L p out v w =
           (case call_api L (build_request k p) of
              Inl e \<Rightarrow> (Inl e, w2)
            | Inr r \<Rightarrow> handle_response L p out v r w2)"
      by blast
    with k True show ?thesis by (intro sent [of k w2])
  next
    case False
    then have "v" "\<not> prints_ok L (prompt_lines p)" by simp_all
    from generate_image_unprintable [OF k this, of out] obtain e w' where
      "generate_image L p out v w = (Inl e, w')"
      "requests_sent w' = requests_sent w" "files w' = files w"
      "directories w' = directories w" "stderr w' = stderr w" "environ w' = environ w"
      by blast
    then show ?thesis by (intro before [of e w'])
  qed
qed

lemma generate_image_frame:
  "stderr (snd (generate_image L p out v w)) = stderr w
   \<and> environ (snd (generate_image L p out v w)) = environ w"
proof (cases rule: generate_image_cases [of L p out v w])
  case (before e w')
  then show ?thesis by simp
next
  case (sent k w2)
  show ?thesis
  proof (cases "call_api L (build_request k p)")
    case (Inl e)
    with sent show ?thesis by simp
  next
    case (Inr r)
    with sent handle_response_frame [of L p out v r w2] show ?thesis by simp
  qed
qed

lemma generate_image_changed:
  assumes "files (snd (generate_image L p out v w)) \<noteq> files w
           \<or> directories (snd (generate_image L p out v w)) \<noteq> directories w"
  shows "\<exists>k r result d img.
           environ w (ustr ''GOOGLE_API_KEY'') = Some k
           \<and> network L (build_request k p) = Responded r \<and> \<not> raise_for_status r
           \<and> json_result r = Inr result \<and> get_image_data L result = Inr d
           \<and> decode_image L d = Inr img"
proof (cases rule: generate_image_cases [of L p out v w])
  case (before e w')
  with assms show ?thesis by simp
next
  case (sent k w2)
  show ?thesis
  proof (cases "call_api L (build_request k p)")
    case (Inl e)
    with sent assms show ?thesis by simp
  next
    case (Inr r)
    with sent assms have "files (snd (handle_response L p out v r w2)) \<noteq> files w2
           \<or> directories (snd (handle_response L p out v r w2)) \<noteq> directories w2"
      by simp
    from handle_response_changed [OF this] Inr sent(1) show ?thesis
      by (auto simp: call_api_Inr)
  qed
qed

lemma generate_image_Inr:
  assumes "generate_image L p out v w = (Inr path, w')"
  shows "\<exists>k r result d img.
           environ w (ustr ''GOOGLE_API_KEY'') = Some k \<and> k \<noteq> []
           \<and> network L (build_request k p) = Responded r \<and> \<not> raise_for_status r
           \<and> json_result r = Inr result \<and> get_image_data L result = Inr d
           \<and> decode_image L d = Inr img
           \<and> path = output_path_of (derive_filename (unicode_alnum L) p out (clock w))
           \<and> makedirs_error L = None \<and> save_error L img path = None
           \<and> (v \<longrightarrow> prints_ok L (prompt_lines p @ received_lines @ saved_lines L img path))
           \<and> files w' = (files w)(path \<mapsto> png_encode L img)
           \<and> requests_sent w' = requests_sent w @ [build_request k p]
           \<and> stderr w' = stderr w \<and> environ w' = environ w
           \<and> stdout w' = stdout w @
               (if v then prompt_lines p @ received_lines @ saved_lines L img path else [])"
proof (cases rule: generate_image_cases [of L p out v w])
  case (before e w'')
  with assms show ?thesis by simp
next
  case (sent k w2)
  show ?thesis
  proof (cases "call_api L (build_request k p)")
    case (Inl e)
    with sent assms show ?thesis by simp
  next
    case (Inr r)
    then have net: "network L (build_request k p) = Responded r" "\<not> raise_for_status r"
      by (simp_all add: call_api_Inr)
    from Inr sent assms have h: "handle_response L p out v r w2 = (Inr path, w')" by simp
    from handle_response_frame [of L p out v r w2] h
    have fr: "stderr w' = stderr w2" "environ w' = environ w2"
      "requests_sent w' = requests_sent w2" by simp_all
    from handle_response_Inr [OF h] obtain result d img where
      "json_result r = Inr result" "get_image_data L result = Inr d"
      "decode_image L d = Inr img"
      "path = output_path_of (derive_filename (unicode_alnum L) p out (clock w2))"
      "makedirs_error L = None" "save_error L img path = None"
      "v \<longrightarrow> prints_ok L (received_lines @ saved_lines L img path)"
      "files w' = (files w2)(path \<mapsto> png_encode L img)"
      "stdout w' = stdout w2 @ (if v then received_lines @ saved_lines L img path else [])"
      by blast
    with sent net fr show ?thesis
      by (intro exI [of _ k] exI [of _ r] exI [of _ result] exI [of _ d] exI [of _ img])
        (auto simp: prints_ok_def)
  qed
qed

lemma generate_image_success:
  assumes "environ w (ustr ''GOOGLE_API_KEY'') = Some k" and "k \<noteq> []"
    and "network L (build_request k p) = Responded r" and "\<not> raise_for_status r"
    and "json_result r = Inr result" and "get_image_data L result = Inr d"
    and "decode_image L d = Inr img"
    and "makedirs_error L = None"
    and "save_error L img (output_path_of (derive_filename (unicode_alnum L) p out (clock w))) = None"
    and "v \<longrightarrow> prints_ok L (prompt_lines p @ received_lines @ saved_lines L img
           (output_path_of (derive_filename (unicode_alnum L) p out (clock w))))"
  shows "fst (generate_image L p out v w) =
           Inr (output_path_of (derive_filename (unicode_alnum L) p out (clock w)))"
    and "files (snd (generate_image L p out v w)) =
           (files w)(output_path_of (derive_filename (unicode_alnum L) p out (clock w))
              \<mapsto> png_encode L img)"
    and "stdout (snd (generate_image L p out v w)) = stdout w @
           (if v then prompt_lines p @ received_lines @ saved_lines L img
              (output_path_of (derive_filename (unicode_alnum L) p out (clock w))) else [])"
proof -
  let ?path = "output_path_of (derive_filename (unicode_alnum L) p out (clock w))"
  from assms(10) have pr: "v \<longrightarrow> prints_ok L (prompt_lines p)"
    "v \<longrightarrow> prints_ok L received_lines" "v \<longrightarrow> prints_ok L (saved_lines L img ?path)"
    by (simp_all add: prints_ok_def)
  from generate_image_with_key [OF assms(1,2) pr(1), of out] obtain w2 where
    w2: "files w2 = files w" "clock w2 = clock w"
      "stdout w2 = stdout w @ (if v then prompt_lines p else [])"
    and g: "generate_image L p out v w =
           (case call_api L (build_request k p) of
              Inl e \<Rightarrow> (Inl e, w2)
            | Inr r \<Rightarrow> handle_response L p out v r w2)"
    by blast
  have c: "call_api L (build_request k p) = Inr r"
    using assms(3,4) by (simp add: call_api_Inr)
  let ?w3 = "w2\<lparr>stdout := stdout w2 @ (if v then received_lines else [])\<rparr>"
  have g': "generate_image L p out v w = save_stage L p out v img ?w3"
    unfolding g c using handle_response_decoded [OF assms(5-7) pr(2), of p out w2] by simp
  have cl: "clock ?w3 = clock w" "files ?w3 = files w"
    using w2 by simp_all
  note st = save_stage_ok [of L img p out ?w3 v, unfolded cl, OF assms(8,9) pr(3)]
  show "fst (generate_image L p out v w) = Inr ?path"
    unfolding g' by (rule st(1))
  show "files (snd (generate_image L p out v w)) = (files w)(?path \<mapsto> png_encode L img)"
    unfolding g' by (rule st(2))
  show "stdout (snd (generate_image L p out v w)) = stdout w @
           (if v then prompt_lines p @ received_lines @ saved_lines L img ?path else [])"
    unfolding g' st(3) using w2 by simp
qed

lemma generate_image_http_failure:
  assumes "environ w (ustr ''GOOGLE_API_KEY'') = Some k" and "k \<noteq> []"
    and "v \<longrightarrow> prints_ok L (prompt_lines p)"
    and "call_api L (build_request k p) = Inl e"
  shows "fst (generate_image L p out v w) = Inl e"
    and "requests_sent (snd (generate_image L p out v w)) = requests_sent w @ [build_request k p]"
proof -
  from generate_image_with_key [OF assms(1-3), of out] obtain w2 where
    w2: "requests_sent w2 = requests_sent w @ [build_request k p]"
    and g: "generate_image L p out v w =
           (case call_api L (build_request k p) of
              Inl e \<Rightarrow> (Inl e, w2)
            | Inr r \<Rightarrow> handle_response L p out v r w2)"
    by blast
  show "fst (generate_image L p out v w) = Inl e"
    unfolding g assms(4) by simp
  show "requests_sent (snd (generate_image L p out v w)) = requests_sent w @ [build_request k p]"
    unfolding g assms(4) using w2 by simp
qed

lemma generate_image_no_payload:
  assumes "environ w (ustr ''GOOGLE_API_KEY'') = Some k" and "k \<noteq> []"
    and "v \<longrightarrow> prints_ok L (prompt_lines p)"
    and "network L (build_request k p) = Responded r" and "\<not> raise_for_status r"
    and "json_result r = Inr result" and "get_image_data L result = Inl e"
  shows "fst (generate_image L p out v w) = Inl e"
    and "files (snd (generate_image L p out v w)) = files w"
proof -
  from generate_image_with_key [OF assms(1-3), of out] obtain w2 where
    w2: "files w2 = files w"
    and g: "generate_image L p out v w =
           (case call_api L (build_request k p) of
              Inl e \<Rightarrow> (Inl e, w2)
            | Inr r \<Rightarrow> handle_response L p out v r w2)"
    by blast
  have c: "call_api L (build_request k p) = Inr r"
    using assms(4,5) by (simp add: call_api_Inr)
  show "fst (generate_image L p out v w) = Inl e"
    unfolding g c using assms(6,7) by (simp add: handle_response_def)
  show "files (snd (generate_image L p out v w)) = files w"
    unfolding g c using assms(6,7) w2 by (simp add: handle_response_def)
qed

section \<open>Facts about the sample inputs\<close>

lemma sample_key:
  "environ (sample_world (Some (ustr ''key-1''))) (ustr ''GOOGLE_API_KEY'') = Some (ustr ''key-1'')"
  "ustr ''key-1'' \<noteq> []"
  by (simp_all add: sample_world_def ustr_def)

lemma sample_fields [simp]:
  "network (sample_runtime out) req = out"
  "makedirs_error (sample_runtime out) = None"
  "stdout_error (sample_runtime out) = sample_stdout_error"
  "save_error (sample_runtime out) = sample_save_error"
  "png_encode (sample_runtime out) = sample_png_encode"
  "parse_args (sample_runtime out) = sample_parse_args"
  "unicode_alnum (sample_runtime out) = latin1_alnum"
  "exc_text (sample_runtime out) = sample_exc_text"
  "py_str (sample_runtime out) = sample_str"
  by (simp_all add: sample_runtime_def answers_def)

lemma sample_world_fields [simp]:
  "stdout (sample_world key) = []" "stderr (sample_world key) = []"
  "requests_sent (sample_world key) = []" "files (sample_world key) = Map.empty"
  "directories (sample_world key) = {}" "clock (sample_world key) = sample_time"
  by (simp_all add: sample_world_def)

lemma ok_response_fields:
  "\<not> raise_for_status (ok_response j)" "json_result (ok_response j) = Inr j"
  "status_code (ok_response j) = 200"
  by (simp_all add: ok_response_def raise_for_status_def)

lemma single_payload:
  "s \<noteq> [] \<Longrightarrow>
   get_image_data L (api_result [candidate [inline_part (JStr s)]]) = Inr (JStr s)"
  by (simp add: get_image_data_def extract_image_data_def ebind_def api_result_def candidate_def
      inline_part_def ustr_def)

lemma sample_b64_nonempty: "red_b64 \<noteq> []" "blue_b64 \<noteq> []"
  by (simp_all add: red_b64_def blue_b64_def ustr_def)

lemma sample_decode:
  "decode_image (sample_runtime out) (JStr red_b64) = Inr red_pixel"
  "decode_image (sample_runtime out) (JStr blue_b64) = Inr blue_pixel"
proof -
  have "blue_b64 \<noteq> red_b64"
    by (simp add: red_b64_def blue_b64_def ustr_def)
  moreover have "blue_png \<noteq> red_png"
    by (simp add: red_png_def blue_png_def)
  ultimately show "decode_image (sample_runtime out) (JStr red_b64) = Inr red_pixel"
    "decode_image (sample_runtime out) (JStr blue_b64) = Inr blue_pixel"
    by (simp_all add: decode_image_def sample_runtime_def sample_b64decode_def
        sample_image_open_def)
qed

lemma sample_encode:
  "sample_png_encode red_pixel = red_png" "sample_png_encode blue_pixel = blue_png"
  by (simp_all add: sample_png_encode_def red_pixel_def blue_pixel_def)

lemma sample_quiet [simp]: "False \<longrightarrow> prints_ok L msgs"
  by simp

section \<open>The credential and the request\<close>

lemma provisioning_page_in_message:
  "sublist (ustr ''https://aistudio.google.com/apikey'') missing_key_message"
proof -
  have "missing_key_message =
      (ustr ''GOOGLE_API_KEY environment variable not set.\<newline>Get your API key from: '')
      @ ustr ''https://aistudio.google.com/apikey''
      @ (ustr ''\<newline>Then set it: export GOOGLE_API_KEY='' @ [39] @ ustr ''your-key-here'' @ [39])"
    by (simp add: missing_key_message_def ustr_def)
  then show ?thesis
    unfolding sublist_def by blast
qed

text \<open>
  C5. When the variable \<open>GOOGLE_API_KEY\<close> is absent from the environment, the handler
  raises its configuration error, a \<open>ValueError\<close> whose message names the page
  \<open>https://aistudio.google.com/apikey\<close>, and leaves the world as it was: nothing was
  printed and no request was sent.
\<close>

theorem missing_credential_error:
  assumes "environ w (ustr ''GOOGLE_API_KEY'') = None"
  shows "generate_image L p out v w = (Inl (ValueError missing_key_message), w)
         \<and> requests_sent (snd (generate_image L p out v w)) = requests_sent w
         \<and> sublist (ustr ''https://aistudio.google.com/apikey'') missing_key_message"
  using assms provisioning_page_in_message by (simp add: generate_image_without_key)

theorem missing_credential_error_witness:
  "environ (sample_world None) (ustr ''GOOGLE_API_KEY'') = None
   \<and> fst (generate_image (sample_runtime TimedOut) (ustr ''a cat'') None True (sample_world None))
     = Inl (ValueError missing_key_message)
   \<and> requests_sent
       (snd (generate_image (sample_runtime TimedOut) (ustr ''a cat'') None True
          (sample_world None))) = []"
proof -
  have h: "environ (sample_world None) (ustr ''GOOGLE_API_KEY'') = None"
    by (simp add: sample_world_def)
  have "requests_sent (sample_world None) = []"
    by (simp add: sample_world_def)
  with h missing_credential_error [OF h, of "sample_runtime TimedOut" "ustr ''a cat''" None True]
  show ?thesis by simp
qed

lemma double_values:
  "double_value 0x3FF0000000000000 = 1"
  "\<bar>double_value 0x3FEE666666666666 - 95 / 100\<bar> \<le> 1 / 2 ^ 54"
  by (simp_all add: double_value_def Let_def bit_iff_odd_drop_bit power_int_minus
      drop_bit_eq_div take_bit_eq_mod unat_numeral)

lemma sample_prints_ok:
  "prints_ok (sample_runtime out) (prompt_lines (ustr ''a cat''))"
  "prints_ok (sample_runtime out) received_lines"
  by (simp_all add: prints_ok_def prompt_lines_def received_lines_def sample_stdout_error_def
      surrogate_def ustr_def)

text \<open>
  C7 (as the code has it). With a credential in the environment (a non-empty value of
  \<open>GOOGLE_API_KEY\<close>), a run of the handler that is quiet, or whose two first progress
  messages can be printed, sends exactly one request, whatever the answer: a POST to the
  fixed endpoint with a timeout of 60 seconds, the credential in the header
  \<open>x-goog-api-key\<close>, and the JSON body with the prompt as the single text part and the
  generation configuration temperature 1.0, topP 0.95 (the doubles \<open>0x3FF0000000000000\<close>,
  which is 1, and \<open>0x3FEE666666666666\<close>, the double next to 0.95), topK 40,
  maxOutputTokens 8192. A verbose run whose first messages cannot be printed sends no
  request.
\<close>

theorem one_post_request:
  assumes "environ w (ustr ''GOOGLE_API_KEY'') = Some k" and "k \<noteq> []"
  shows "((v \<longrightarrow> prints_ok L (prompt_lines p)) \<longrightarrow>
          requests_sent (snd (generate_image L p out v w)) =
          requests_sent w @
           [\<lparr>req_method = ustr ''POST'',
             req_url = ustr
               ''https://generativelanguage.googleapis.com/v1beta/models/gemini-2.5-flash-image:generateContent'',
             req_headers =
               [(ustr ''x-goog-api-key'', k), (ustr ''Content-Type'', ustr ''application/json'')],
             req_json =
               JDict
                 [(ustr ''contents'',
                     JList [JDict [(ustr ''parts'', JList [JDict [(ustr ''text'', JStr p)]])]]),
                  (ustr ''generationConfig'',
                     JDict
                       [(ustr ''temperature'', JFloat 0x3FF0000000000000),
                        (ustr ''topP'', JFloat 0x3FEE666666666666),
                        (ustr ''topK'', JInt 40),
                        (ustr ''maxOutputTokens'', JInt 8192)])],
             req_timeout = 60\<rparr>])
         \<and> (v \<and> \<not> prints_ok L (prompt_lines p) \<longrightarrow>
          requests_sent (snd (generate_image L p out v w)) = requests_sent w)
         \<and> double_value 0x3FF0000000000000 = 1
         \<and> \<bar>double_value 0x3FEE666666666666 - 95 / 100\<bar> \<le> 1 / 2 ^ 54"
proof (intro conjI impI)
  assume pr: "v \<longrightarrow> prints_ok L (prompt_lines p)"
  from generate_image_with_key [OF assms pr, of out] obtain w2 where
    sent: "requests_sent w2 = requests_sent w @ [build_request k p]"
    and g: "generate_image L p out v w =
           (case call_api L (build_request k p) of
              Inl e \<Rightarrow> (Inl e, w2)
            | Inr r \<Rightarrow> handle_response L p out v r w2)"
    by blast
  have "requests_sent (snd (generate_image L p out v w)) = requests_sent w2"
    unfolding g by (simp add: handle_response_frame split: sum.splits)
  with sent show "requests_sent (snd (generate_image L p out v w)) =
          requests_sent w @
           [\<lparr>req_method = ustr ''POST'',
             req_url = ustr
               ''https://generativelanguage.googleapis.com/v1beta/models/gemini-2.5-flash-image:generateContent'',
             req_headers =
               [(ustr ''x-goog-api-key'', k), (ustr ''Content-Type'', ustr ''application/json'')],
             req_json =
               JDict
                 [(ustr ''contents'',
                     JList [JDict [(ustr ''parts'', JList [JDict [(ustr ''text'', JStr p)]])]]),
                  (ustr ''generationConfig'',
                     JDict
                       [(ustr ''temperature'', JFloat 0x3FF0000000000000),
                        (ustr ''topP'', JFloat 0x3FEE666666666666),
                        (ustr ''topK'', JInt 40),
                        (ustr ''maxOutputTokens'', JInt 8192)])],
             req_timeout = 60\<rparr>]"
    by (simp add: build_request_def endpoint_def payload_def float_1_0_def float_0_95_def)
next
  assume "v \<and> \<not> prints_ok L (prompt_lines p)"
  then have "v" "\<not> prints_ok L (prompt_lines p)" by simp_all
  from generate_image_unprintable [OF assms this, of out]
  show "requests_sent (snd (generate_image L p out v w)) = requests_sent w"
    by auto
qed (rule double_values)+

theorem one_post_request_witness:
  "map req_timeout (requests_sent
       (snd (generate_image (sample_runtime TimedOut) (ustr ''a cat'') None True
          (sample_world (Some (ustr ''key-1'')))))) = [60]
   \<and> map req_headers (requests_sent
       (snd (generate_image (sample_runtime TimedOut) (ustr ''a cat'') None True
          (sample_world (Some (ustr ''key-1'')))))) =
       [ [(ustr ''x-goog-api-key'', ustr ''key-1''),
         (ustr ''Content-Type'', ustr ''application/json'')]]
   \<and> requests_sent
       (snd (generate_image (sample_runtime TimedOut) [56448] None True
          (sample_world (Some (ustr ''key-1''))))) = []"
proof -
  let ?w = "sample_world (Some (ustr ''key-1''))"
  have bad: "\<not> prints_ok (sample_runtime TimedOut) (prompt_lines [56448])"
    by (simp add: prints_ok_def prompt_lines_def sample_stdout_error_def surrogate_def)
  from one_post_request [OF sample_key, of True "sample_runtime TimedOut" "ustr ''a cat''" None]
    sample_prints_ok(1) [of TimedOut]
  have "map req_timeout (requests_sent
       (snd (generate_image (sample_runtime TimedOut) (ustr ''a cat'') None True ?w))) = [60]"
    "map req_headers (requests_sent
       (snd (generate_image (sample_runtime TimedOut) (ustr ''a cat'') None True ?w))) =
       [ [(ustr ''x-goog-api-key'', ustr ''key-1''),
         (ustr ''Content-Type'', ustr ''application/json'')]]"
    by simp_all
  moreover
  from one_post_request [OF sample_key, of True "sample_runtime TimedOut" "[56448]" None] bad
  have "requests_sent
       (snd (generate_image (sample_runtime TimedOut) [56448] None True ?w)) = []"
    by simp
  ultimately show ?thesis by simp
qed

text \<open>
  C7 (as stated) has every prompt and credential lead to exactly one request. The prompt
  here is one lone surrogate (the command-line byte \<open>0x80\<close>): the verbose handler
  raises at the \<open>print\<close> of line 48, which a UTF-8 terminal cannot encode, and no
  request is sent.
\<close>

theorem unprintable_prompt_counterexample:
  "environ (sample_world (Some (ustr ''key-1''))) (ustr ''GOOGLE_API_KEY'') = Some (ustr ''key-1'')
   \<and> fst (generate_image (sample_runtime
              (Responded (ok_response (api_result [candidate [inline_part (JStr red_b64)]]))))
          [56448] None True (sample_world (Some (ustr ''key-1''))))
     = Inl (ValueError (ustr ''utf-8 codec cannot encode character: surrogates not allowed''))
   \<and> requests_sent
       (snd (generate_image (sample_runtime
              (Responded (ok_response (api_result [candidate [inline_part (JStr red_b64)]]))))
          [56448] None True (sample_world (Some (ustr ''key-1''))))) = []"
  by (simp add: sample_key generate_image_def progress_def print_def prompt_lines_def
      sample_stdout_error_def surrogate_def)

section \<open>Empty inline data\<close>



section \<open>Errors of the request\<close>

text \<open>
  C4 (as the code has it). In a run that reaches the request (with a credential, and
  quiet or with its two first messages printed): a response with a status from 400 to
  599, for which \<open>raise_for_status\<close> raises, makes the handler raise an error chosen
  by the status: 401 the invalid-key message, 403 the missing-permission message, 429 the
  rate-limit message, any other the generic message followed by the text of the HTTP
  error. A timeout gives the timeout message, any other failure of the transport the
  network-error message followed by its text. In each case the one request is all that
  was sent. A response with any other status, below 400 or from 600, is no error: the
  handler goes on with it as with a response of status 200.
\<close>

theorem http_failures_classified:
  assumes "environ w (ustr ''GOOGLE_API_KEY'') = Some k" and "k \<noteq> []"
    and "v \<longrightarrow> prints_ok L (prompt_lines p)"
  shows "(\<forall>r. network L (build_request k p) = Responded r
              \<and> 400 \<le> status_code r \<and> status_code r < 600 \<longrightarrow>
            fst (generate_image L p out v w) =
              Inl (ValueError
                (if status_code r = 401
                 then ustr ''Invalid API key. Please check your GOOGLE_API_KEY.''
                 else if status_code r = 403
                 then ustr ''API key doesn'' @ [39] @ ustr ''t have required permissions.''
                 else if status_code r = 429
                 then ustr ''Rate limit exceeded. Please wait and try again.''
                 else ustr ''API request failed: '' @ error_text r))
            \<and> requests_sent (snd (generate_image L p out v w))
                = requests_sent w @ [build_request k p])
         \<and> (network L (build_request k p) = TimedOut \<longrightarrow>
            fst (generate_image L p out v w) =
              Inl (ValueError (ustr ''API request timed out. Please try again.''))
            \<and> requests_sent (snd (generate_image L p out v w))
                = requests_sent w @ [build_request k p])
         \<and> (\<forall>e. network L (build_request k p) = Failed e \<longrightarrow>
            fst (generate_image L p out v w) = Inl (ValueError (ustr ''Network error: '' @ e))
            \<and> requests_sent (snd (generate_image L p out v w))
                = requests_sent w @ [build_request k p])
         \<and> (\<forall>r. network L (build_request k p) = Responded r
              \<and> (status_code r < 400 \<or> 600 \<le> status_code r) \<longrightarrow>
            (\<exists>w2. requests_sent w2 = requests_sent w @ [build_request k p]
               \<and> files w2 = files w \<and> directories w2 = directories w
               \<and> generate_image L p out v w = handle_response L p out v r w2))"
proof (intro conjI allI impI)
  fix r
  assume "network L (build_request k p) = Responded r
              \<and> 400 \<le> status_code r \<and> status_code r < 600"
  then have c: "call_api L (build_request k p) = Inl (ValueError (http_error_message r))"
    by (simp add: call_api_def raise_for_status_def)
  from generate_image_http_failure [OF assms c, of out]
  show "fst (generate_image L p out v w) =
              Inl (ValueError
                (if status_code r = 401
                 then ustr ''Invalid API key. Please check your GOOGLE_API_KEY.''
                 else if status_code r = 403
                 then ustr ''API key doesn'' @ [39] @ ustr ''t have required permissions.''
                 else if status_code r = 429
                 then ustr ''Rate limit exceeded. Please wait and try again.''
                 else ustr ''API request failed: '' @ error_text r))"
    and "requests_sent (snd (generate_image L p out v w)) = requests_sent w @ [build_request k p]"
    by (simp_all add: http_error_message_def)
next
  assume "network L (build_request k p) = TimedOut"
  then have c: "call_api L (build_request k p) =
      Inl (ValueError (ustr ''API request timed out. Please try again.''))"
    by (simp add: call_api_def)
  from generate_image_http_failure [OF assms c, of out]
  show "fst (generate_image L p out v w) =
      Inl (ValueError (ustr ''API request timed out. Please try again.''))"
    and "requests_sent (snd (generate_image L p out v w)) = requests_sent w @ [build_request k p]"
    by simp_all
next
  fix e
  assume "network L (build_request k p) = Failed e"
  then have c: "call_api L (build_request k p) = Inl (ValueError (ustr ''Network error: '' @ e))"
    by (simp add: call_api_def)
  from generate_image_http_failure [OF assms c, of out]
  show "fst (generate_image L p out v w) = Inl (ValueError (ustr ''Network error: '' @ e))"
    and "requests_sent (snd (generate_image L p out v w)) = requests_sent w @ [build_request k p]"
    by simp_all
next
  fix r
  assume "network L (build_request k p) = Responded r
              \<and> (status_code r < 400 \<or> 600 \<le> status_code r)"
  then have c: "call_api L (build_request k p) = Inr r"
    by (auto simp: call_api_Inr raise_for_status_def)
  from generate_image_with_key [OF assms, of out] obtain w2 where
    "requests_sent w2 = requests_sent w @ [build_request k p]"
    "files w2 = files w" "directories w2 = directories w"
    "generate_image L p out v w =
           (case call_api L (build_request k p) of
              Inl e \<Rightarrow> (Inl e, w2)
            | Inr r \<Rightarrow> handle_response L p out v r w2)"
    by blast
  with c show "\<exists>w2. requests_sent w2 = requests_sent w @ [build_request k p]
               \<and> files w2 = files w \<and> directories w2 = directories w
               \<and> generate_image L p out v w = handle_response L p out v r w2"
    by (intro exI [of _ w2]) simp
qed

theorem http_failures_classified_witness:
  "fst (generate_image (sample_runtime (Responded (status_response 401 JNull))) (ustr ''a cat'')
         None False (sample_world (Some (ustr ''key-1''))))
     = Inl (ValueError (ustr ''Invalid API key. Please check your GOOGLE_API_KEY.''))
   \<and> fst (generate_image (sample_runtime (Responded (status_response 500 JNull))) (ustr ''a cat'')
         None False (sample_world (Some (ustr ''key-1''))))
     = Inl (ValueError (ustr ''API request failed: 500 Error''))
   \<and> fst (generate_image (sample_runtime TimedOut) (ustr ''a cat'')
         None False (sample_world (Some (ustr ''key-1''))))
     = Inl (ValueError (ustr ''API request timed out. Please try again.''))
   \<and> fst (generate_image (sample_runtime (Failed (ustr ''connection refused''))) (ustr ''a cat'')
         None False (sample_world (Some (ustr ''key-1''))))
     = Inl (ValueError (ustr ''Network error: connection refused''))
   \<and> length (requests_sent (snd (generate_image (sample_runtime TimedOut) (ustr ''a cat'')
         None False (sample_world (Some (ustr ''key-1'')))))) = 1
   \<and> fst (generate_image (sample_runtime (Responded (status_response 204 (api_result []))))
         (ustr ''a cat'') None False (sample_world (Some (ustr ''key-1''))))
     = Inl (ValueError (ustr ''No image data received from API. Response: {...}''))"
proof -
  let ?w = "sample_world (Some (ustr ''key-1''))"
  have s: "status_code (status_response 401 JNull) = 401"
    "status_code (status_response 500 JNull) = 500"
    "error_text (status_response 500 JNull) = ustr ''500 Error''"
    "status_code (status_response 204 (api_result [])) = 204"
    "json_result (status_response 204 (api_result [])) = Inr (api_result [])"
    by (simp_all add: status_response_def ustr_def) code_simp
  have np: "get_image_data (sample_runtime out) (api_result [])
     = Inl (ValueError (ustr ''No image data received from API. Response: {...}''))" for out
    by (simp add: get_image_data_def extract_image_data_def ebind_def api_result_def
        no_image_message_def sample_str_def ustr_def)
  from http_failures_classified
    [OF sample_key sample_quiet,
      of "sample_runtime (Responded (status_response 401 JNull))" "ustr ''a cat''" None] s
  have a: "fst (generate_image (sample_runtime (Responded (status_response 401 JNull)))
         (ustr ''a cat'') None False ?w)
     = Inl (ValueError (ustr ''Invalid API key. Please check your GOOGLE_API_KEY.''))"
    by simp
  from http_failures_classified
    [OF sample_key sample_quiet,
      of "sample_runtime (Responded (status_response 500 JNull))" "ustr ''a cat''" None] s
  have b: "fst (generate_image (sample_runtime (Responded (status_response 500 JNull)))
         (ustr ''a cat'') None False ?w)
     = Inl (ValueError (ustr ''API request failed: 500 Error''))"
    by (simp add: ustr_def)
  from http_failures_classified
    [OF sample_key sample_quiet, of "sample_runtime TimedOut" "ustr ''a cat''" None]
  have c: "fst (generate_image (sample_runtime TimedOut) (ustr ''a cat'') None False ?w)
     = Inl (ValueError (ustr ''API request timed out. Please try again.''))"
    "length (requests_sent (snd (generate_image (sample_runtime TimedOut) (ustr ''a cat'')
         None False ?w))) = 1"
    by simp_all
  from http_failures_classified
    [OF sample_key sample_quiet,
      of "sample_runtime (Failed (ustr ''connection refused''))" "ustr ''a cat''" None]
  have d: "fst (generate_image (sample_runtime (Failed (ustr ''connection refused'')))
         (ustr ''a cat'') None False ?w)
     = Inl (ValueError (ustr ''Network error: connection refused''))"
    by (simp add: ustr_def)
  from http_failures_classified
    [OF sample_key sample_quiet,
      of "sample_runtime (Responded (status_response 204 (api_result [])))" "ustr ''a cat''" None]
    s(4)
  obtain w2 where "generate_image (sample_runtime (Responded (status_response 204 (api_result []))))
      (ustr ''a cat'') None False ?w
    = handle_response (sample_runtime (Responded (status_response 204 (api_result []))))
      (ustr ''a cat'') None False (status_response 204 (api_result [])) w2"
    by auto
  then have e: "fst (generate_image
      (sample_runtime (Responded (status_response 204 (api_result []))))
      (ustr ''a cat'') None False ?w)
     = Inl (ValueError (ustr ''No image data received from API. Response: {...}''))"
    by (simp add: handle_response_def s(5) np)
  from a b c d e show ?thesis by simp
qed

text \<open>
  C4 (as stated) has every response outside 2xx raise an error chosen by its status.
  \<open>raise_for_status\<close> raises for 400 to 599 only: a response with status 300 that
  carries an image (here the PNG file of one red pixel) is handled like a 200 response,
  and the handler returns the path.
\<close>

theorem status_300_counterexample:
  "status_code (status_response 300 (api_result [candidate [inline_part (JStr red_b64)]])) = 300
   \<and> fst (generate_image
        (sample_runtime (Responded
           (status_response 300 (api_result [candidate [inline_part (JStr red_b64)]]))))
        (ustr ''a cat'') (Some (ustr ''cat'')) False (sample_world (Some (ustr ''key-1''))))
     = Inr (ustr ''public/images/cat.png'')"
proof -
  let ?r = "status_response 300 (api_result [candidate [inline_part (JStr red_b64)]])"
  have r: "status_code ?r = 300" "\<not> raise_for_status ?r"
    "json_result ?r = Inr (api_result [candidate [inline_part (JStr red_b64)]])"
    by (simp_all add: status_response_def raise_for_status_def)
  have path: "output_path_of (derive_filename U (ustr ''a cat'') (Some (ustr ''cat'')) t)
      = ustr ''public/images/cat.png''" for U t
    by (simp add: output_path_of_def derive_filename_def ustr_def)
  have sv: "sample_save_error img (ustr ''public/images/cat.png'') = None" for img
    by (simp add: sample_save_error_def dirname_def ustr_def)
  have "fst (generate_image (sample_runtime (Responded ?r)) (ustr ''a cat'') (Some (ustr ''cat''))
        False (sample_world (Some (ustr ''key-1''))))
     = Inr (output_path_of (derive_filename (unicode_alnum (sample_runtime (Responded ?r)))
         (ustr ''a cat'') (Some (ustr ''cat'')) (clock (sample_world (Some (ustr ''key-1''))))))"
    by (rule generate_image_success(1)
        [OF sample_key _ r(2,3) single_payload [OF sample_b64_nonempty(1)] sample_decode(1)])
      (simp_all add: path sv)
  then show ?thesis
    using r(1) by (simp add: path)
qed

section \<open>What is written, and when\<close>




lemma report_error_status: "fst (report_error L e w) = 1"
  by (cases e) (simp_all add: report_error_def)

lemma report_error_frame:
  "files (snd (report_error L e w)) = files w"
  "directories (snd (report_error L e w)) = directories w"
  "stdout (snd (report_error L e w)) = stdout w"
  "requests_sent (snd (report_error L e w)) = requests_sent w"
  by (cases e; simp add: report_error_def)+


lemma sample_filename:
  "derive_filename latin1_alnum (ustr ''a cat'') None (sample_time\<lparr>microsecond := us\<rparr>)
     = ustr ''generated_a_cat_20240115_143022''"
  by (simp add: derive_filename_def safe_prompt_def isalnum_def strip_def isspace_def
      replace_space_def strftime_def pad2_def pad4_def sample_time_def ustr_def)



section \<open>The derived filename\<close>

lemma length_pad [simp]: "length (pad2 n) = 2" "length (pad4 n) = 4"
  by (simp_all add: pad2_def pad4_def)

lemma digits_eq:
  fixes a b :: nat
  assumes "a div 10 = b div 10" and "a mod 10 = b mod 10"
  shows "a = b"
proof -
  have "a = a div 10 * 10 + a mod 10" by simp
  also have "\<dots> = b div 10 * 10 + b mod 10" using assms by simp
  also have "\<dots> = b" by simp
  finally show ?thesis .
qed

lemma pad2_inj:
  assumes "a < 100" and "b < 100" and "pad2 a = pad2 b"
  shows "a = b"
proof -
  from assms(3) have "a div 10 mod 10 = b div 10 mod 10" and m: "a mod 10 = b mod 10"
    by (simp_all add: pad2_def)
  moreover from assms(1,2) have "a div 10 < 10" "b div 10 < 10" by simp_all
  ultimately have "a div 10 = b div 10" by simp
  then show ?thesis using m by (rule digits_eq)
qed

lemma pad4_inj:
  assumes "a < 10000" and "b < 10000" and "pad4 a = pad4 b"
  shows "a = b"
proof -
  have d: "n div 100 = n div 10 div 10" "n div 1000 = n div 10 div 10 div 10" for n :: nat
    by (simp_all add: div_mult2_eq [symmetric])
  from assms(3) have e3: "a div 10 div 10 div 10 mod 10 = b div 10 div 10 div 10 mod 10"
    and e2: "a div 10 div 10 mod 10 = b div 10 div 10 mod 10"
    and e1: "a div 10 mod 10 = b div 10 mod 10" and e0: "a mod 10 = b mod 10"
    by (simp_all add: pad4_def d)
  from assms(1,2) have "a div 1000 < 10" "b div 1000 < 10" by simp_all
  then have "a div 10 div 10 div 10 < 10" "b div 10 div 10 div 10 < 10"
    by (simp_all add: d)
  with e3 have "a div 10 div 10 div 10 = b div 10 div 10 div 10" by simp
  then have "a div 10 div 10 = b div 10 div 10" using e2 by (rule digits_eq)
  then have "a div 10 = b div 10" using e1 by (rule digits_eq)
  then show ?thesis using e0 by (rule digits_eq)
qed

lemma strftime_inj:
  assumes "valid_datetime t1" and "valid_datetime t2" and "strftime t1 = strftime t2"
  shows "year t1 = year t2 \<and> month t1 = month t2 \<and> day t1 = day t2
         \<and> hour t1 = hour t2 \<and> minute t1 = minute t2 \<and> second t1 = second t2"
proof -
  from assms(3) have eq: "pad4 (year t1) = pad4 (year t2)" "pad2 (month t1) = pad2 (month t2)"
    "pad2 (day t1) = pad2 (day t2)" "pad2 (hour t1) = pad2 (hour t2)"
    "pad2 (minute t1) = pad2 (minute t2)" "pad2 (second t1) = pad2 (second t2)"
    by (simp_all add: strftime_def)
  from assms(1,2) have b: "year t1 < 10000" "year t2 < 10000" "month t1 < 100" "month t2 < 100"
    "day t1 < 100" "day t2 < 100" "hour t1 < 100" "hour t2 < 100"
    "minute t1 < 100" "minute t2 < 100" "second t1 < 100" "second t2 < 100"
    by (simp_all add: valid_datetime_def)
  from pad4_inj [OF b(1,2) eq(1)] pad2_inj [OF b(3,4) eq(2)] pad2_inj [OF b(5,6) eq(3)]
    pad2_inj [OF b(7,8) eq(4)] pad2_inj [OF b(9,10) eq(5)] pad2_inj [OF b(11,12) eq(6)]
  show ?thesis by simp
qed



text \<open>
  C8 (as the code has it). Without an output filename the name is \<open>generated_\<close>, the
  sanitized fragment, an underscore, and the clock reading as four digits of the year, two
  each of month and day, an underscore, two each of hour, minute and second
  (\<open>20240115_143022\<close>). Two clock readings that differ in one of these six fields
  give different names for the same prompt. Two successful runs with the same non-empty
  output filename return the same path \<open>public/images/<name>.png\<close>, and after the
  second run the file there holds the image of the second run.
\<close>

theorem derived_filename_and_overwrite:
  "derive_filename U p None t =
     ustr ''generated_'' @ safe_prompt U p @ ustr ''_''
     @ pad4 (year t) @ pad2 (month t) @ pad2 (day t) @ ustr ''_''
     @ pad2 (hour t) @ pad2 (minute t) @ pad2 (second t)
   \<and> strftime \<lparr>year = 2024, month = 1, day = 15, hour = 14, minute = 30, second = 22,
                microsecond = us\<rparr> = ustr ''20240115_143022''
   \<and> (valid_datetime t1 \<and> valid_datetime t2
       \<and> (year t1 \<noteq> year t2 \<or> month t1 \<noteq> month t2 \<or> day t1 \<noteq> day t2
          \<or> hour t1 \<noteq> hour t2 \<or> minute t1 \<noteq> minute t2 \<or> second t1 \<noteq> second t2) \<longrightarrow>
      derive_filename U p None t1 \<noteq> derive_filename U p None t2)
   \<and> (n \<noteq> [] \<and> generate_image L p (Some n) v w = (Inr path, w')
       \<and> generate_image L' p' (Some n) v' w' = (Inr path', w'') \<longrightarrow>
      path = ustr ''public/images/'' @ n @ ustr ''.png'' \<and> path' = path
      \<and> (\<exists>k r result d img.
            network L' (build_request k p') = Responded r \<and> json_result r = Inr result
            \<and> get_image_data L' result = Inr d \<and> decode_image L' d = Inr img
            \<and> files w'' path = Some (png_encode L' img)))"
proof (intro conjI impI)
  show "derive_filename U p None t =
     ustr ''generated_'' @ safe_prompt U p @ ustr ''_''
     @ pad4 (year t) @ pad2 (month t) @ pad2 (day t) @ ustr ''_''
     @ pad2 (hour t) @ pad2 (minute t) @ pad2 (second t)"
    by (simp add: derive_filename_def strftime_def)
  show "strftime \<lparr>year = 2024, month = 1, day = 15, hour = 14, minute = 30, second = 22,
                microsecond = us\<rparr> = ustr ''20240115_143022''"
    by (simp add: strftime_def pad2_def pad4_def ustr_def)
next
  assume h: "valid_datetime t1 \<and> valid_datetime t2
       \<and> (year t1 \<noteq> year t2 \<or> month t1 \<noteq> month t2 \<or> day t1 \<noteq> day t2
          \<or> hour t1 \<noteq> hour t2 \<or> minute t1 \<noteq> minute t2 \<or> second t1 \<noteq> second t2)"
  show "derive_filename U p None t1 \<noteq> derive_filename U p None t2"
  proof
    assume "derive_filename U p None t1 = derive_filename U p None t2"
    then have "strftime t1 = strftime t2"
      by (simp add: derive_filename_def)
    with h strftime_inj [of t1 t2] show False by blast
  qed
next
  assume h: "n \<noteq> [] \<and> generate_image L p (Some n) v w = (Inr path, w')
       \<and> generate_image L' p' (Some n) v' w' = (Inr path', w'')"
  then have n: "n \<noteq> []" and run1: "generate_image L p (Some n) v w = (Inr path, w')"
    and run2: "generate_image L' p' (Some n) v' w' = (Inr path', w'')"
    by simp_all
  have name: "output_path_of (derive_filename U' q (Some n) t') = ustr ''public/images/'' @ n @ ustr ''.png''"
    for U' q t'
    using n by (simp add: output_path_of_def derive_filename_def)
  from generate_image_Inr [OF run1] show p1: "path = ustr ''public/images/'' @ n @ ustr ''.png''"
    by (auto simp: name)
  from generate_image_Inr [OF run2] obtain k r result d img where
    second: "network L' (build_request k p') = Responded r" "json_result r = Inr result"
      "get_image_data L' result = Inr d" "decode_image L' d = Inr img"
      "path' = output_path_of (derive_filename (unicode_alnum L') p' (Some n) (clock w'))"
      "files w'' = (files w')(path' \<mapsto> png_encode L' img)"
    by (elim exE conjE)
  from second(5) p1 show p2: "path' = path"
    by (simp add: name)
  from second(6) p2 have "files w'' path = Some (png_encode L' img)"
    by simp
  with second(1-4) show "\<exists>k r result d img.
            network L' (build_request k p') = Responded r \<and> json_result r = Inr result
            \<and> get_image_data L' result = Inr d \<and> decode_image L' d = Inr img
            \<and> files w'' path = Some (png_encode L' img)"
    by blast
qed

text \<open>
  C8 (as stated) has two runs with the same prompt at different times give different
  filenames. Two clock readings half a second apart, within one second, give the same
  name.
\<close>

theorem same_second_counterexample:
  "valid_datetime (sample_time\<lparr>microsecond := 0\<rparr>)
   \<and> valid_datetime (sample_time\<lparr>microsecond := 500000\<rparr>)
   \<and> sample_time\<lparr>microsecond := 0\<rparr> \<noteq> sample_time\<lparr>microsecond := 500000\<rparr>
   \<and> derive_filename latin1_alnum (ustr ''a cat'') None (sample_time\<lparr>microsecond := 0\<rparr>)
     = derive_filename latin1_alnum (ustr ''a cat'') None (sample_time\<lparr>microsecond := 500000\<rparr>)"
proof -
  have "microsecond (sample_time\<lparr>microsecond := 0\<rparr>)
      \<noteq> microsecond (sample_time\<lparr>microsecond := 500000\<rparr>)"
    by simp
  then have "sample_time\<lparr>microsecond := 0\<rparr> \<noteq> sample_time\<lparr>microsecond := 500000\<rparr>"
    by metis
  then show ?thesis
    by (simp add: sample_filename) (simp add: valid_datetime_def sample_time_def)
qed

theorem derived_filename_and_overwrite_witness:
  "derive_filename latin1_alnum (ustr ''a cat'') None sample_time
     = ustr ''generated_a_cat_20240115_143022''
   \<and> derive_filename latin1_alnum (ustr ''a cat'') None (sample_time\<lparr>second := 23\<rparr>)
     \<noteq> ustr ''generated_a_cat_20240115_143022''
   \<and> fst (generate_image
        (sample_runtime (Responded
           (ok_response (api_result [candidate [inline_part (JStr red_b64)]]))))
        (ustr ''a cat'') (Some (ustr ''pet'')) False (sample_world (Some (ustr ''key-1''))))
     = Inr (ustr ''public/images/pet.png'')
   \<and> files (snd (generate_image
        (sample_runtime (Responded
           (ok_response (api_result [candidate [inline_part (JStr blue_b64)]]))))
        (ustr ''a dog'') (Some (ustr ''pet'')) False
        (snd (generate_image
           (sample_runtime (Responded
              (ok_response (api_result [candidate [inline_part (JStr red_b64)]]))))
           (ustr ''a cat'') (Some (ustr ''pet'')) False (sample_world (Some (ustr ''key-1'')))))))
       (ustr ''public/images/pet.png'') = Some blue_png"
proof -
  let ?res1 = "api_result [candidate [inline_part (JStr red_b64)]]"
  let ?res2 = "api_result [candidate [inline_part (JStr blue_b64)]]"
  let ?L1 = "sample_runtime (Responded (ok_response ?res1))"
  let ?L2 = "sample_runtime (Responded (ok_response ?res2))"
  let ?w = "sample_world (Some (ustr ''key-1''))"
  let ?run1 = "generate_image ?L1 (ustr ''a cat'') (Some (ustr ''pet'')) False ?w"
  let ?run2 = "generate_image ?L2 (ustr ''a dog'') (Some (ustr ''pet'')) False (snd ?run1)"
  let ?path = "ustr ''public/images/pet.png''"
  let ?t2 = "sample_time\<lparr>second := 23\<rparr>"
  have ne: "ustr ''pet'' \<noteq> []"
    by (simp add: ustr_def)
  have path: "output_path_of (derive_filename U q (Some (ustr ''pet'')) t) = ?path" for U q t
    by (simp add: output_path_of_def derive_filename_def ustr_def)
  have sv: "sample_save_error img ?path = None" for img
    by (simp add: sample_save_error_def dirname_def ustr_def)
  have net1: "network ?L1 (build_request (ustr ''key-1'') (ustr ''a cat''))
      = Responded (ok_response ?res1)"
    and net2: "network ?L2 (build_request (ustr ''key-1'') (ustr ''a dog''))
      = Responded (ok_response ?res2)"
    by simp_all
  have pl1: "get_image_data ?L1 ?res1 = Inr (JStr red_b64)"
    and pl2: "get_image_data ?L2 ?res2 = Inr (JStr blue_b64)"
    by (rule single_payload [OF sample_b64_nonempty(1)])
      (rule single_payload [OF sample_b64_nonempty(2)])
  have dc1: "decode_image ?L1 (JStr red_b64) = Inr red_pixel"
    and dc2: "decode_image ?L2 (JStr blue_b64) = Inr blue_pixel"
    by (rule sample_decode)+
  have fst1: "fst ?run1 = Inr ?path"
    using generate_image_success(1)
      [OF sample_key net1 ok_response_fields(1,2) pl1 dc1,
        where out = "Some (ustr ''pet'')" and v = False]
    by (simp add: path sv)
  then have run1: "?run1 = (Inr ?path, snd ?run1)"
    by (simp add: prod_eq_iff)
  from generate_image_frame [of ?L1 "ustr ''a cat''" "Some (ustr ''pet'')" False ?w] sample_key
  have key2: "environ (snd ?run1) (ustr ''GOOGLE_API_KEY'') = Some (ustr ''key-1'')"
    by simp
  have "fst ?run2 = Inr ?path"
    using generate_image_success(1)
      [OF key2 sample_key(2) net2 ok_response_fields(1,2) pl2 dc2,
        where out = "Some (ustr ''pet'')" and v = False]
    by (simp add: path sv)
  then have run2: "?run2 = (Inr ?path, snd ?run2)"
    by (simp add: prod_eq_iff)
  have t: "valid_datetime sample_time" "valid_datetime ?t2" "second sample_time \<noteq> second ?t2"
    by (simp_all add: valid_datetime_def sample_time_def)
  have f1: "derive_filename latin1_alnum (ustr ''a cat'') None sample_time
     = ustr ''generated_a_cat_20240115_143022''"
    using sample_filename [of "microsecond sample_time"] by simp
  note inst = derived_filename_and_overwrite
    [of latin1_alnum "ustr ''a cat''" sample_time 0 sample_time ?t2 "ustr ''pet''" ?L1 False ?w
      ?path "snd ?run1" ?L2 "ustr ''a dog''" False ?path "snd ?run2"]
  from inst t f1 have differ:
    "derive_filename latin1_alnum (ustr ''a cat'') None ?t2
       \<noteq> ustr ''generated_a_cat_20240115_143022''"
    by metis
  from inst ne run1 run2 obtain k r result d img where
    "network ?L2 (build_request k (ustr ''a dog'')) = Responded r" "json_result r = Inr result"
    "get_image_data ?L2 result = Inr d" "decode_image ?L2 d = Inr img"
    "files (snd ?run2) ?path = Some (png_encode ?L2 img)"
    by blast
  then have "files (snd ?run2) ?path = Some blue_png"
    by (auto simp: ok_response_fields pl2 dc2 sample_encode)
  with f1 differ fst1 show ?thesis by simp
qed

section \<open>Output and exit status of the command line\<close>

lemma main_parsed: "parse_args L argv = Parsed a \<Longrightarrow> main L argv w = run L a w"
  by (simp add: main_def)

lemma run_failure:
  assumes "fst (generate_image L (arg_prompt a) (arg_output a) (\<not> arg_quiet a) w) = Inl e"
  shows "fst (run L a w) = 1"
    and "e = ValueError msg \<Longrightarrow>
           stderr (snd (run L a w)) = stderr w @ [ [0x274C] @ ustr '' Error: '' @ msg]"
    and "e = TypeError \<or> e = AttributeError \<or> e = KeyError \<or> e = OSError \<Longrightarrow>
           stderr (snd (run L a w))
             = stderr w @ [ [0x274C] @ ustr '' Unexpected error: '' @ exc_text L e]"
proof -
  obtain w' where g: "generate_image L (arg_prompt a) (arg_output a) (\<not> arg_quiet a) w = (Inl e, w')"
    using assms by (cases "generate_image L (arg_prompt a) (arg_output a) (\<not> arg_quiet a) w") simp
  from generate_image_frame [of L "arg_prompt a" "arg_output a" "\<not> arg_quiet a" w] g
  have err: "stderr w' = stderr w" by simp
  have r: "run L a w = report_error L e w'"
    by (simp add: run_def g)
  show "fst (run L a w) = 1"
    by (simp add: r report_error_status)
  show "stderr (snd (run L a w)) = stderr w @ [ [0x274C] @ ustr '' Error: '' @ msg]"
    if "e = ValueError msg"
    using that err by (simp add: r report_error_def)
  show "stderr (snd (run L a w))
      = stderr w @ [ [0x274C] @ ustr '' Unexpected error: '' @ exc_text L e]"
    if "e = TypeError \<or> e = AttributeError \<or> e = KeyError \<or> e = OSError"
    using that err by (auto simp: r report_error_def)
qed

lemma run_success:
  assumes "fst (generate_image L (arg_prompt a) (arg_output a) (\<not> arg_quiet a) w) = Inr path"
  obtains w' img where "stderr w' = stderr w"
    and "stdout w' = stdout w @
           (if arg_quiet a then []
            else prompt_lines (arg_prompt a) @ received_lines @ saved_lines L img path)"
    and "run L a w =
           (if arg_quiet a
            then (case print L path w' of
                    (Some e, w'') \<Rightarrow> report_error L e w''
                  | (None, w'') \<Rightarrow> (0, w''))
            else (0, w'))"
proof -
  obtain w' where g: "generate_image L (arg_prompt a) (arg_output a) (\<not> arg_quiet a) w = (Inr path, w')"
    using assms by (cases "generate_image L (arg_prompt a) (arg_output a) (\<not> arg_quiet a) w") simp
  from generate_image_Inr [OF g] obtain img where
    "stderr w' = stderr w"
    "stdout w' = stdout w @
       (if \<not> arg_quiet a
        then prompt_lines (arg_prompt a) @ received_lines @ saved_lines L img path else [])"
    by (elim exE conjE)
  then show thesis
    by (intro that [of w' img]) (simp_all add: run_def g)
qed

lemma run_status: "fst (run L a w) = 0 \<or> fst (run L a w) = 1"
proof (cases "fst (generate_image L (arg_prompt a) (arg_output a) (\<not> arg_quiet a) w)")
  case (Inl e)
  from run_failure(1) [OF this] show ?thesis by simp
next
  case (Inr path)
  from run_success [OF this] obtain w' where
    r: "run L a w =
           (if arg_quiet a
            then (case print L path w' of
                    (Some e, w'') \<Rightarrow> report_error L e w''
                  | (None, w'') \<Rightarrow> (0, w''))
            else (0, w'))"
    by blast
  show ?thesis
    unfolding r
    by (cases rule: print_result [of L path w']) (auto simp: report_error_status)
qed

lemma main_status: "fst (main L argv w) = 0 \<or> fst (main L argv w) = 1 \<or> fst (main L argv w) = 2"
proof (cases "parse_args L argv")
  case (Parsed a)
  with run_status [of L a w] show ?thesis by (auto simp: main_def)
next
  case (Usage_error m)
  then show ?thesis by (simp add: main_def)
next
  case (Help m)
  then show ?thesis
    by (cases rule: print_result [of L m w]) (auto simp: main_def)
qed




end
